theory Spec2Isabelle
  imports Main "HOL-Library.Sublist" "HOL-Library.Multiset"
begin

chapter \<open>The program\<close>

section \<open>Data model of the streaming extractor\<close>

text \<open>
  The orchestrator of \<^verbatim>\<open>src/streamingExtractor.js\<close> is the class
  \<^verbatim>\<open>StreamingVPKProcessor\<close>. Its fields are a record; the two collaborators it holds
  (the depot downloader and the Source2Viewer wrapper) are part of the environment that
  is introduced further below. Console output and wall-clock durations are not modelled:
  they never influence control flow or a returned value that a caller reads.
\<close>

text \<open>
  The loaded directory of the \<^verbatim>\<open>vpk\<close> package as this repository reads it:
  \<^verbatim>\<open>vpkDir.files\<close> is the sequence of logical paths, \<^verbatim>\<open>vpkDir.tree[fileName]\<close> the entry of
  a path (absent: \<^verbatim>\<open>undefined\<close>), and \<^verbatim>\<open>archiveIndex\<close> the entry's shard number, which the
  planner treats as missing when it is \<^verbatim>\<open>undefined\<close>.
\<close>

record fileInfo =
  archiveIndex :: "nat option"

record vpkDir =
  files :: "string list"
  tree :: "string \<rightharpoonup> fileInfo"

text \<open>The counters object \<^verbatim>\<open>this.results\<close>; an error entry is a pair of file and message.\<close>

record run_results =
  downloaded :: nat
  extracted :: nat
  failed :: nat
  errors :: "(string \<times> string) list"

record processor =
  outputDir :: string
  vpkFolders :: "string list"
  tempVpkDir :: string
  results :: run_results

definition StreamingVPKProcessor :: "string \<Rightarrow> string list \<Rightarrow> processor" where
  "StreamingVPKProcessor outDir folders =
     \<lparr> outputDir = outDir,
       vpkFolders = folders,
       tempVpkDir = ''./temp_vpk'',
       results = \<lparr> downloaded = 0, extracted = 0, failed = 0, errors = [] \<rparr> \<rparr>"

section \<open>The shard planner: getRequiredVPKArchives\<close>

text \<open>
  A JavaScript \<^verbatim>\<open>Set\<close> of numbers keeps its members in insertion order and ignores the
  insertion of a member it already has.
\<close>

definition set_add :: "nat \<Rightarrow> nat list \<Rightarrow> nat list" where
  "set_add x s = (if x \<in> set s then s else s @ [x])"

text \<open>
  The inner loop over \<^verbatim>\<open>this.vpkFolders\<close> for one file name: the first folder that is a
  prefix of the name decides, and the \<^verbatim>\<open>break\<close> ends the loop there, whether or not an
  index was added.
\<close>

fun scanFolders :: "vpkDir \<Rightarrow> string \<Rightarrow> string list \<Rightarrow> nat list \<Rightarrow> nat list" where
  "scanFolders vd fileName [] requiredIndices = requiredIndices"
| "scanFolders vd fileName (folder # rest) requiredIndices =
     (if prefix folder fileName then
        (case tree vd fileName of
           None \<Rightarrow> requiredIndices
         | Some info \<Rightarrow>
             (case archiveIndex info of
                None \<Rightarrow> requiredIndices
              | Some i \<Rightarrow> set_add i requiredIndices))
      else scanFolders vd fileName rest requiredIndices)"

text \<open>The outer loop over \<^verbatim>\<open>vpkDir.files\<close>.\<close>

fun scanFiles :: "vpkDir \<Rightarrow> string list \<Rightarrow> string list \<Rightarrow> nat list \<Rightarrow> nat list" where
  "scanFiles vd folders [] requiredIndices = requiredIndices"
| "scanFiles vd folders (fileName # rest) requiredIndices =
     scanFiles vd folders rest (scanFolders vd fileName folders requiredIndices)"

text \<open>
  \<^verbatim>\<open>Array.from(requiredIndices).sort((a, b) => a - b)\<close>: the members in ascending numeric
  order.
\<close>

definition getRequiredVPKArchives :: "processor \<Rightarrow> vpkDir \<Rightarrow> nat list" where
  "getRequiredVPKArchives this vd = sort (scanFiles vd (vpkFolders this) (files vd) [])"

section \<open>Errors, results and the environment\<close>

text \<open>
  Every error the sources throw is a JavaScript \<^verbatim>\<open>Error\<close> with a message; a function that
  can throw returns \<open>exn + 'a\<close>, with \<^term>\<open>Inl\<close> for the thrown error.
\<close>

datatype exn = Error string

text \<open>
  The result objects that \<^verbatim>\<open>runCommand\<close>, \<^verbatim>\<open>runDepotDownloader\<close>, the download operations
  and \<^verbatim>\<open>extractVPKFolder\<close> pass around: \<^verbatim>\<open>success\<close>, \<^verbatim>\<open>error\<close> and \<^verbatim>\<open>output\<close>, where an
  absent, \<^verbatim>\<open>undefined\<close> or \<^verbatim>\<open>null\<close> field is \<^term>\<open>None\<close>. The fields that only feed console
  output or that no caller reads (\<^verbatim>\<open>duration\<close>, \<^verbatim>\<open>downloadTime\<close>, \<^verbatim>\<open>outputDir\<close>,
  \<^verbatim>\<open>exitCode\<close>) are left out. The result of \<^verbatim>\<open>extractWithSource2Viewer\<close> adds
  \<^verbatim>\<open>details\<close>, the per-folder results.
\<close>

record result =
  success :: bool
  error :: "string option"
  outputText :: "string option"

record extraction = result +
  details :: "result list"

text \<open>The options object that \<^verbatim>\<open>extractWithSource2Viewer\<close> passes to \<^verbatim>\<open>extractVPKFolder\<close>.\<close>

record extractOptions =
  extension :: string
  folder :: string
  decompile :: bool

text \<open>
  What a run does to the outside world is recorded, in order, as a trace of events: file
  system changes, the installation of the tool, each spawned process with the result
  \<^verbatim>\<open>runCommand\<close> resolves to, each \<^verbatim>\<open>setTimeout\<close> wait in milliseconds, and each call of
  the orchestrator to one of its two collaborators with the answer it got.
\<close>

datatype event =
    Mkdir string
  | Rm string
  | WriteFile string string
  | Unlink string
  | Install
  | Spawn string nat result
  | Wait nat
  | CallDownloadSpecificFiles nat nat string string string "exn + result"
  | CallDownloadMultipleFiles nat nat string "string list" string "exn + result"
  | CallExtractVPKFolder string string extractOptions "exn + result"

text \<open>
  How a child process ends for \<^verbatim>\<open>runCommand\<close>: the \<^verbatim>\<open>close\<close> event with the exit code
  (\<^verbatim>\<open>null\<close> after a signal), the time-out, or the \<^verbatim>\<open>error\<close> event with its message; each
  with the text collected from standard output and standard error so far.
\<close>

datatype processOutcome =
    Closed "nat option" string string
  | TimedOut string string
  | SpawnError string string string

text \<open>
  The environment: the primitives of Node (\<^verbatim>\<open>os\<close>, \<^verbatim>\<open>path\<close>, \<^verbatim>\<open>fs\<close>, \<^verbatim>\<open>child_process\<close>,
  timers) and of the \<^verbatim>\<open>vpk\<close> package as functions of an abstract world \<open>'w\<close>, which
  they may change and which decides their answers. \<^verbatim>\<open>fs.existsSync\<close> never throws; the
  other file operations can. Three pieces of repository code are primitives here as well:
  the installer \<^verbatim>\<open>downloadDepotDownloader\<close> (curl, unzip, chmod), the recursive walk of
  \<^verbatim>\<open>findExtractedImages\<close> over the output directory, which yields the paths ending in
  \<^verbatim>\<open>.png\<close>, and, for the orchestrator, the methods it calls on its two collaborators
  \<^verbatim>\<open>this.depotDownloader\<close> and \<^verbatim>\<open>this.source2Viewer\<close>, which can return a result or throw.
\<close>

record 'w env =
  platform :: string
  pathJoin :: "string list \<Rightarrow> string"
  existsSync :: "string \<Rightarrow> 'w \<Rightarrow> bool"
  mkdirSync :: "string \<Rightarrow> 'w \<Rightarrow> (exn + unit) \<times> 'w"
  rmSync :: "string \<Rightarrow> 'w \<Rightarrow> (exn + unit) \<times> 'w"
  writeFileSync :: "string \<Rightarrow> string \<Rightarrow> 'w \<Rightarrow> (exn + unit) \<times> 'w"
  unlinkSync :: "string \<Rightarrow> 'w \<Rightarrow> (exn + unit) \<times> 'w"
  spawn :: "string \<Rightarrow> nat \<Rightarrow> 'w \<Rightarrow> processOutcome \<times> 'w"
  setTimeout :: "nat \<Rightarrow> 'w \<Rightarrow> 'w"
  downloadDepotDownloader :: "'w \<Rightarrow> (exn + unit) \<times> 'w"
  vpkLoad :: "string \<Rightarrow> 'w \<Rightarrow> exn + vpkDir"
  findImages :: "string \<Rightarrow> 'w \<Rightarrow> exn + string list"
  depotDownloader_downloadSpecificFiles ::
    "nat \<Rightarrow> nat \<Rightarrow> string \<Rightarrow> string \<Rightarrow> string \<Rightarrow> 'w \<Rightarrow> (exn + result) \<times> 'w"
  depotDownloader_downloadMultipleFiles ::
    "nat \<Rightarrow> nat \<Rightarrow> string \<Rightarrow> string list \<Rightarrow> string \<Rightarrow> 'w \<Rightarrow> (exn + result) \<times> 'w"
  source2Viewer_extractVPKFolder ::
    "string \<Rightarrow> string \<Rightarrow> extractOptions \<Rightarrow> 'w \<Rightarrow> (exn + result) \<times> 'w"

text \<open>
  The state threaded through the code: the world and the trace, and for the orchestrator
  also the processor object, whose \<^verbatim>\<open>results\<close> field it mutates. \<^term>\<open>perform\<close> runs one
  primitive and appends its event.
\<close>

record 'w sys =
  world :: 'w
  trace :: "event list"

record 'w machine = "'w sys" +
  proc :: processor

definition perform ::
  "('a \<Rightarrow> event) \<Rightarrow> ('w \<Rightarrow> 'a \<times> 'w) \<Rightarrow> ('w, 'm) sys_scheme \<Rightarrow> 'a \<times> ('w, 'm) sys_scheme" where
  "perform ev op s =
     (case op (world s) of (r, w') \<Rightarrow> (r, s\<lparr> world := w', trace := trace s @ [ev r] \<rparr>))"

definition returnE :: "'a \<Rightarrow> 's \<Rightarrow> (exn + 'a) \<times> 's" where
  "returnE a s = (Inr a, s)"

definition throwE :: "exn \<Rightarrow> 's \<Rightarrow> (exn + 'a) \<times> 's" where
  "throwE e s = (Inl e, s)"

definition bindE ::
  "('s \<Rightarrow> (exn + 'a) \<times> 's) \<Rightarrow> ('a \<Rightarrow> 's \<Rightarrow> (exn + 'b) \<times> 's) \<Rightarrow> 's \<Rightarrow> (exn + 'b) \<times> 's" where
  "bindE m f s = (case m s of (Inl e, s') \<Rightarrow> (Inl e, s') | (Inr a, s') \<Rightarrow> f a s')"

definition tryFinally ::
  "('s \<Rightarrow> (exn + 'a) \<times> 's) \<Rightarrow> ('s \<Rightarrow> 's) \<Rightarrow> 's \<Rightarrow> (exn + 'a) \<times> 's" where
  "tryFinally body finalizer s = (case body s of (r, s') \<Rightarrow> (r, finalizer s'))"

text \<open>A template literal's rendering of a message that may be \<^verbatim>\<open>undefined\<close>.\<close>

definition template :: "string option \<Rightarrow> string" where
  "template v = (case v of None \<Rightarrow> ''undefined'' | Some t \<Rightarrow> t)"

text \<open>
  \<^verbatim>\<open>Number.prototype.toString\<close> on a natural number (\<^term>\<open>digitChar\<close> is only used below
  10), \<^verbatim>\<open>String.prototype.padStart\<close> with a one-character filler, and the file pattern of
  one archive in \<^verbatim>\<open>downloadRequiredArchives\<close>; the source text \<^verbatim>\<open>"\\."\<close> is a backslash and
  a dot.
\<close>

definition digitChar :: "nat \<Rightarrow> char" where
  "digitChar d = ''0123456789'' ! d"

function toString :: "nat \<Rightarrow> string" where
  "toString n = (if n < 10 then [digitChar n] else toString (n div 10) @ [digitChar (n mod 10)])"
  by pat_completeness auto
termination
  by (relation "measure id") auto

declare toString.simps [simp del]

definition padStart :: "nat \<Rightarrow> char \<Rightarrow> string \<Rightarrow> string" where
  "padStart targetLength c t = replicate (targetLength - length t) c @ t"

definition archivePattern :: "nat \<Rightarrow> string" where
  "archivePattern idx =
     ''csgo/pak01_'' @ padStart 3 (CHR ''0'') (toString idx) @ [CHR 0x5C] @ ''.vpk''"

text \<open>\<^verbatim>\<open>Array.prototype.join\<close> on an array of strings.\<close>

fun join :: "string \<Rightarrow> string list \<Rightarrow> string" where
  "join sep [] = []"
| "join sep [x] = x"
| "join sep (x # y # ys) = x @ sep @ join sep (y # ys)"

section \<open>The orchestrator: processVPKFiles\<close>

text \<open>The three calls to the collaborators, each recorded with its answer.\<close>

definition call_downloadSpecificFiles ::
  "'w env \<Rightarrow> nat \<Rightarrow> nat \<Rightarrow> string \<Rightarrow> string \<Rightarrow> string \<Rightarrow> 'w machine \<Rightarrow> (exn + result) \<times> 'w machine" where
  "call_downloadSpecificFiles env appId depotId manifestId filePattern outDir =
     perform (CallDownloadSpecificFiles appId depotId manifestId filePattern outDir)
       (depotDownloader_downloadSpecificFiles env appId depotId manifestId filePattern outDir)"

definition call_downloadMultipleFiles ::
  "'w env \<Rightarrow> nat \<Rightarrow> nat \<Rightarrow> string \<Rightarrow> string list \<Rightarrow> string \<Rightarrow> 'w machine \<Rightarrow> (exn + result) \<times> 'w machine" where
  "call_downloadMultipleFiles env appId depotId manifestId filePatterns outDir =
     perform (CallDownloadMultipleFiles appId depotId manifestId filePatterns outDir)
       (depotDownloader_downloadMultipleFiles env appId depotId manifestId filePatterns outDir)"

definition call_extractVPKFolder ::
  "'w env \<Rightarrow> string \<Rightarrow> string \<Rightarrow> extractOptions \<Rightarrow> 'w machine \<Rightarrow> (exn + result) \<times> 'w machine" where
  "call_extractVPKFolder env vpkDirPath outDir opts =
     perform (CallExtractVPKFolder vpkDirPath outDir opts)
       (source2Viewer_extractVPKFolder env vpkDirPath outDir opts)"

text \<open>
  \<^verbatim>\<open>if (!fs.existsSync(dir)) fs.mkdirSync(dir, { recursive: true })\<close>, as it stands in
  \<^verbatim>\<open>processVPKFiles\<close> and in the download operations; and the two of them that
  \<^verbatim>\<open>processVPKFiles\<close> runs before it enters its \<^verbatim>\<open>try\<close> block.
\<close>

definition ensureDirectory :: "'w env \<Rightarrow> string \<Rightarrow> ('w, 'm) sys_scheme \<Rightarrow> (exn + unit) \<times> ('w, 'm) sys_scheme" where
  "ensureDirectory env dir s =
     (if \<not> existsSync env dir (world s) then perform (\<lambda>_. Mkdir dir) (mkdirSync env dir) s
      else (Inr (), s))"

definition prepareDirectories :: "'w env \<Rightarrow> 'w machine \<Rightarrow> (exn + unit) \<times> 'w machine" where
  "prepareDirectories env s =
     bindE (ensureDirectory env (tempVpkDir (proc s)))
       (\<lambda>_. ensureDirectory env (outputDir (proc s))) s"

text \<open>
  \<^verbatim>\<open>findVPKDirFile\<close>: the first of three candidate paths that exists. The listing of the
  directory on the failing path only writes to the console, and its errors are caught.
\<close>

definition findVPKDirFile :: "'w env \<Rightarrow> 'w machine \<Rightarrow> string option" where
  "findVPKDirFile env s =
     find (\<lambda>searchPath. existsSync env searchPath (world s))
       [pathJoin env [tempVpkDir (proc s), ''game'', ''csgo'', ''pak01_dir.vpk''],
        pathJoin env [tempVpkDir (proc s), ''csgo'', ''pak01_dir.vpk''],
        pathJoin env [tempVpkDir (proc s), ''pak01_dir.vpk'']]"

text \<open>
  The first part of the \<^verbatim>\<open>try\<close> block: download the directory file, locate it, load it.
  Each failure is a thrown error.
\<close>

definition fetchDirectory ::
  "'w env \<Rightarrow> nat \<Rightarrow> nat \<Rightarrow> string \<Rightarrow> 'w machine \<Rightarrow> (exn + string \<times> vpkDir) \<times> 'w machine" where
  "fetchDirectory env appId depotId manifestId s =
     bindE
       (call_downloadSpecificFiles env appId depotId manifestId
          (''csgo/pak01_dir'' @ [CHR 0x5C] @ ''.vpk'') (tempVpkDir (proc s)))
       (\<lambda>dirResult s1.
          if \<not> success dirResult then
            throwE (Error (''Failed to download VPK directory: '' @ template (error dirResult))) s1
          else
            (case findVPKDirFile env s1 of
               None \<Rightarrow> throwE (Error ''Could not find pak01_dir.vpk file'') s1
             | Some vpkDirPath \<Rightarrow>
                 (case vpkLoad env vpkDirPath (world s1) of
                    Inl e \<Rightarrow> throwE e s1
                  | Inr vd \<Rightarrow> returnE (vpkDirPath, vd) s1))) s"

text \<open>\<^verbatim>\<open>downloadRequiredArchives\<close>: one pattern per archive index, one batch call.\<close>

definition downloadRequiredArchives ::
  "'w env \<Rightarrow> nat \<Rightarrow> nat \<Rightarrow> string \<Rightarrow> nat list \<Rightarrow> 'w machine \<Rightarrow> (exn + unit) \<times> 'w machine" where
  "downloadRequiredArchives env appId depotId manifestId requiredArchives s =
     bindE
       (call_downloadMultipleFiles env appId depotId manifestId
          (map archivePattern requiredArchives) (tempVpkDir (proc s)))
       (\<lambda>downloadResult.
          if \<not> success downloadResult then
            throwE (Error (''Failed to batch download VPK archives: '' @
                           template (error downloadResult)))
          else returnE ()) s"

text \<open>
  \<^verbatim>\<open>extractWithSource2Viewer\<close>: the loop over \<^verbatim>\<open>this.vpkFolders\<close> pushes each result; a
  result with \<^verbatim>\<open>success\<close> false only logs a warning, whereas a rejected promise leaves the
  loop as a thrown error.
\<close>

fun extractFolders ::
  "'w env \<Rightarrow> string \<Rightarrow> string list \<Rightarrow> result list \<Rightarrow> 'w machine \<Rightarrow> (exn + result list) \<times> 'w machine" where
  "extractFolders env vpkDirPath [] rs s = (Inr rs, s)"
| "extractFolders env vpkDirPath (f # rest) rs s =
     (case call_extractVPKFolder env vpkDirPath (outputDir (proc s))
             \<lparr> extension = ''vtex_c'', folder = f, decompile = True \<rparr> s of
        (Inl e, s') \<Rightarrow> (Inl e, s')
      | (Inr r, s') \<Rightarrow> extractFolders env vpkDirPath rest (rs @ [r]) s')"

definition extractWithSource2Viewer ::
  "'w env \<Rightarrow> string \<Rightarrow> 'w machine \<Rightarrow> (exn + extraction) \<times> 'w machine" where
  "extractWithSource2Viewer env vpkDirPath s =
     bindE (extractFolders env vpkDirPath (vpkFolders (proc s)) [])
       (\<lambda>rs.
          let successfulExtractions = length (filter success rs) in
          returnE \<lparr> success = 0 < successfulExtractions,
                    error = (if successfulExtractions = 0
                             then Some ''No folders could be extracted'' else None),
                    outputText = None,
                    details = rs \<rparr>) s"

text \<open>
  \<^verbatim>\<open>findExtractedImages\<close>, and the end of the \<^verbatim>\<open>try\<close> block: the branch on
  \<^verbatim>\<open>extractResult.success\<close> that updates \<^verbatim>\<open>this.results\<close>, and the return of that object.
\<close>

definition findExtractedImages :: "'w env \<Rightarrow> 'w machine \<Rightarrow> exn + string list" where
  "findExtractedImages env s =
     (if \<not> existsSync env (outputDir (proc s)) (world s) then Inr []
      else findImages env (outputDir (proc s)) (world s))"

definition aggregate ::
  "'w env \<Rightarrow> nat list \<Rightarrow> extraction \<Rightarrow> 'w machine \<Rightarrow> (exn + run_results) \<times> 'w machine" where
  "aggregate env requiredArchives extractResult s =
     (if success extractResult then
        (case findExtractedImages env s of
           Inl e \<Rightarrow> (Inl e, s)
         | Inr extractedImages \<Rightarrow>
             (let s' = s\<lparr> proc := (proc s)\<lparr> results := (results (proc s))
                          \<lparr> extracted := length extractedImages,
                            downloaded := length requiredArchives \<rparr> \<rparr> \<rparr>
              in (Inr (results (proc s')), s')))
      else
        (let s' = s\<lparr> proc := (proc s)\<lparr> results := (results (proc s))
                     \<lparr> failed := Suc (failed (results (proc s))) \<rparr> \<rparr> \<rparr>
         in (Inr (results (proc s')), s')))"

text \<open>
  The whole \<^verbatim>\<open>try\<close> block, \<^verbatim>\<open>cleanup\<close> (whose own \<^verbatim>\<open>try\<close>/\<^verbatim>\<open>catch\<close> swallows an error
  of \<^verbatim>\<open>fs.rmSync\<close>), and \<^verbatim>\<open>processVPKFiles\<close>: the preparation, then the block with
  \<^verbatim>\<open>cleanup\<close> as its \<^verbatim>\<open>finally\<close>.
\<close>

definition processBody ::
  "'w env \<Rightarrow> nat \<Rightarrow> nat \<Rightarrow> string \<Rightarrow> 'w machine \<Rightarrow> (exn + run_results) \<times> 'w machine" where
  "processBody env appId depotId manifestId =
     bindE (fetchDirectory env appId depotId manifestId)
       (\<lambda>(vpkDirPath, vd) s.
          let requiredArchives = getRequiredVPKArchives (proc s) vd in
          if length requiredArchives = 0 then returnE (results (proc s)) s
          else
            bindE (downloadRequiredArchives env appId depotId manifestId requiredArchives)
              (\<lambda>_. bindE (extractWithSource2Viewer env vpkDirPath)
                      (aggregate env requiredArchives)) s)"

definition cleanup :: "'w env \<Rightarrow> 'w machine \<Rightarrow> 'w machine" where
  "cleanup env s =
     (if existsSync env (tempVpkDir (proc s)) (world s) then
        snd (perform (\<lambda>_. Rm (tempVpkDir (proc s))) (rmSync env (tempVpkDir (proc s))) s)
      else s)"

definition processVPKFiles ::
  "'w env \<Rightarrow> nat \<Rightarrow> nat \<Rightarrow> string \<Rightarrow> 'w machine \<Rightarrow> (exn + run_results) \<times> 'w machine" where
  "processVPKFiles env appId depotId manifestId =
     bindE (prepareDirectories env)
       (\<lambda>_. tryFinally (processBody env appId depotId manifestId) (cleanup env))"

section \<open>Disk-space detection in the in-process extractor\<close>

text \<open>
  \<^verbatim>\<open>src/vpkExtractor.js\<close>, the \<^verbatim>\<open>catch\<close> block of \<^verbatim>\<open>extractImagesFromVPK\<close>: the test on
  the message of the caught error and the error it throws when the test holds.
  \<^verbatim>\<open>String.prototype.includes\<close> is the search for a contiguous occurrence.
\<close>

fun includesText :: "string \<Rightarrow> string \<Rightarrow> bool" where
  "includesText [] searchString = (searchString = [])"
| "includesText (c # cs) searchString = (prefix searchString (c # cs) \<or> includesText cs searchString)"

definition isDiskSpaceError :: "string \<Rightarrow> bool" where
  "isDiskSpaceError message \<longleftrightarrow> includesText message ''ENOSPC'' \<or> includesText message ''No space left''"

definition diskSpaceExhausted :: "string \<Rightarrow> exn" where
  "diskSpaceExhausted fileName =
     Error (''Disk space exhausted while extracting '' @ fileName @
            ''. Consider running locally or increasing runner disk space.'')"

section \<open>The depot downloader\<close>

text \<open>
  The class \<^verbatim>\<open>DepotDownloader\<close> of the second unnamed source file. The options object of
  the constructor has every field optional except the credentials, which
  \<^verbatim>\<open>src/index.js\<close> checks before it constructs the downloader.
\<close>

record depotDownloader =
  username :: string
  password :: string
  tempDir :: string
  executablePath :: string
  downloadAttempts :: nat

record depotOptions =
  optUsername :: string
  optPassword :: string
  optTempDir :: "string option"
  optExecutablePath :: "string option"
  optDownloadAttempts :: "nat option"

text \<open>\<^verbatim>\<open>value || fallback\<close> on an optional string and on an optional number.\<close>

definition orString :: "string option \<Rightarrow> string \<Rightarrow> string" where
  "orString v fallback = (case v of None \<Rightarrow> fallback | Some t \<Rightarrow> if t = [] then fallback else t)"

definition orNumber :: "nat option \<Rightarrow> nat \<Rightarrow> nat" where
  "orNumber v fallback = (case v of None \<Rightarrow> fallback | Some n \<Rightarrow> if n = 0 then fallback else n)"

definition getDefaultExecutablePath :: "'w env \<Rightarrow> string" where
  "getDefaultExecutablePath env =
     (if platform env = ''win32'' then ''./DepotDownloader.exe'' else ''./DepotDownloader'')"

definition DepotDownloader :: "'w env \<Rightarrow> depotOptions \<Rightarrow> depotDownloader" where
  "DepotDownloader env options =
     \<lparr> username = optUsername options,
       password = optPassword options,
       tempDir = orString (optTempDir options) ''./temp'',
       executablePath = orString (optExecutablePath options) (getDefaultExecutablePath env),
       downloadAttempts = orNumber (optDownloadAttempts options) 3 \<rparr>"


definition ensureDepotDownloaderExists ::
  "'w env \<Rightarrow> depotDownloader \<Rightarrow> ('w, 'm) sys_scheme \<Rightarrow> (exn + bool) \<times> ('w, 'm) sys_scheme" where
  "ensureDepotDownloaderExists env this s =
     (if existsSync env (executablePath this) (world s) then (Inr True, s)
      else bindE (perform (\<lambda>_. Install) (downloadDepotDownloader env)) (\<lambda>_. returnE True) s)"

text \<open>
  \<^verbatim>\<open>runCommand\<close>: the promise is resolved, never rejected, by the first of the three
  events close, timeout and error of the child process. All time-outs passed in the
  source are whole seconds.
\<close>

definition commandResult :: "nat \<Rightarrow> processOutcome \<Rightarrow> result" where
  "commandResult timeout outcome =
     (case outcome of
        Closed code out err \<Rightarrow>
          \<lparr> success = (code = Some 0),
            error = (if code = Some 0 then None
                     else Some (''Process exited with code '' @
                                (case code of None \<Rightarrow> ''null'' | Some c \<Rightarrow> toString c))),
            outputText = Some (out @ err) \<rparr>
      | TimedOut out err \<Rightarrow>
          \<lparr> success = False,
            error = Some (''Command timed out after '' @ toString (timeout div 1000) @ ''s''),
            outputText = Some (out @ err) \<rparr>
      | SpawnError message out err \<Rightarrow>
          \<lparr> success = False, error = Some message, outputText = Some (out @ err) \<rparr>)"

definition runCommand ::
  "'w env \<Rightarrow> string \<Rightarrow> nat \<Rightarrow> ('w, 'm) sys_scheme \<Rightarrow> result \<times> ('w, 'm) sys_scheme" where
  "runCommand env command timeout =
     perform (Spawn command timeout)
       (\<lambda>w. case spawn env command timeout w of (outcome, w') \<Rightarrow> (commandResult timeout outcome, w'))"

definition wait :: "'w env \<Rightarrow> nat \<Rightarrow> ('w, 'm) sys_scheme \<Rightarrow> ('w, 'm) sys_scheme" where
  "wait env ms s = s\<lparr> world := setTimeout env ms (world s), trace := trace s @ [Wait ms] \<rparr>"

definition backoffTime :: "nat \<Rightarrow> nat" where
  "backoffTime attempt = min (30000 * 2 ^ (attempt - 1)) 120000"

text \<open>The \<^verbatim>\<open>for\<close> loop of \<^verbatim>\<open>runDepotDownloader\<close>, from the attempt number it is at.\<close>

function attempts ::
  "'w env \<Rightarrow> string \<Rightarrow> nat \<Rightarrow> nat \<Rightarrow> ('w, 'm) sys_scheme \<Rightarrow> result \<times> ('w, 'm) sys_scheme" where
  "attempts env command maxAttempts attempt s =
     (if attempt \<le> maxAttempts then
        (let (r, s1) = runCommand env command (30 * 60 * 1000) s in
         if success r then (\<lparr> success = True, error = None, outputText = outputText r \<rparr>, s1)
         else attempts env command maxAttempts (Suc attempt)
                (if attempt < maxAttempts then wait env (backoffTime attempt) s1 else s1))
      else (\<lparr> success = False, error = Some ''Max attempts exceeded'', outputText = None \<rparr>, s))"
  by pat_completeness auto
termination
  by (relation "measure (\<lambda>(env, command, maxAttempts, attempt, s). Suc maxAttempts - attempt)") auto

declare attempts.simps [simp del]

definition commandLine :: "depotDownloader \<Rightarrow> string list \<Rightarrow> string" where
  "commandLine this args =
     [CHR 0x22] @ executablePath this @ [CHR 0x22] @ '' '' @ join '' '' args"

definition runDepotDownloader ::
  "'w env \<Rightarrow> depotDownloader \<Rightarrow> string list \<Rightarrow> nat \<Rightarrow> ('w, 'm) sys_scheme \<Rightarrow> result \<times> ('w, 'm) sys_scheme" where
  "runDepotDownloader env this args maxAttempts = attempts env (commandLine this args) maxAttempts 1"





section \<open>Parsing the manifest identifier\<close>

text \<open>
  The five regular expressions of \<^verbatim>\<open>getLatestManifestId\<close> are sequences of literal
  characters, \<^verbatim>\<open>\d+\<close> in a capture group and, in the last one, \<^verbatim>\<open>\s*\<close>; all carry the
  flag \<^verbatim>\<open>i\<close>. A pattern is a list of pieces, and matching is the backtracking of the
  JavaScript engine: pieces from left to right, a greedy quantifier trying the longest
  run first, start positions from left to right. The text is a sequence of 8-bit
  characters, so of the white space of \<^verbatim>\<open>\s\<close> only the members below \<^verbatim>\<open>U+0100\<close> occur.
\<close>

datatype charClass = Digit | Space

datatype atom = Chr char | Plus charClass | Star charClass

datatype piece = Plain atom | Group atom

definition isDigit :: "char \<Rightarrow> bool" where
  "isDigit c \<longleftrightarrow> c \<in> set ''0123456789''"

definition isSpace :: "char \<Rightarrow> bool" where
  "isSpace c \<longleftrightarrow> c \<in> set [CHR 0x09, CHR 0x0A, CHR 0x0B, CHR 0x0C, CHR 0x0D, CHR 0x20, CHR 0xA0]"

fun inClass :: "charClass \<Rightarrow> char \<Rightarrow> bool" where
  "inClass Digit c = isDigit c"
| "inClass Space c = isSpace c"

text \<open>The canonical form under the flag \<^verbatim>\<open>i\<close>: upper case, for the letters of ASCII only.\<close>

definition canonicalize :: "char \<Rightarrow> char" where
  "canonicalize c =
     (case map_of (zip ''abcdefghijklmnopqrstuvwxyz'' ''ABCDEFGHIJKLMNOPQRSTUVWXYZ'') c of
        None \<Rightarrow> c
      | Some u \<Rightarrow> u)"

text \<open>The numbers of characters an atom can consume at the head of a text, in the order tried.\<close>

fun candidates :: "atom \<Rightarrow> string \<Rightarrow> nat list" where
  "candidates (Chr c) t =
     (case t of [] \<Rightarrow> [] | x # _ \<Rightarrow> if canonicalize x = canonicalize c then [1] else [])"
| "candidates (Plus k) t = rev [1 ..< Suc (length (takeWhile (inClass k) t))]"
| "candidates (Star k) t = rev [0 ..< Suc (length (takeWhile (inClass k) t))]"

fun firstSome :: "('a \<Rightarrow> 'b option) \<Rightarrow> 'a list \<Rightarrow> 'b option" where
  "firstSome f [] = None"
| "firstSome f (x # xs) = (case f x of None \<Rightarrow> firstSome f xs | Some y \<Rightarrow> Some y)"

fun matchHere :: "piece list \<Rightarrow> string \<Rightarrow> string list \<Rightarrow> string list option" where
  "matchHere [] t captures = Some captures"
| "matchHere (Plain a # ps) t captures =
     firstSome (\<lambda>n. matchHere ps (drop n t) captures) (candidates a t)"
| "matchHere (Group a # ps) t captures =
     firstSome (\<lambda>n. matchHere ps (drop n t) (captures @ [take n t])) (candidates a t)"

text \<open>\<^verbatim>\<open>text.match(pattern)\<close> without the flag \<^verbatim>\<open>g\<close>: the capture groups of the leftmost match.\<close>

fun search :: "piece list \<Rightarrow> string \<Rightarrow> string list option" where
  "search ps [] = matchHere ps [] []"
| "search ps (c # cs) =
     (case matchHere ps (c # cs) [] of None \<Rightarrow> search ps cs | Some captures \<Rightarrow> Some captures)"

definition lit :: "string \<Rightarrow> piece list" where
  "lit t = map (\<lambda>c. Plain (Chr c)) t"

definition manifestPatterns :: "piece list list" where
  "manifestPatterns =
     [lit ''Manifest '' @ [Group (Plus Digit)] @ lit '' ('',
      lit ''manifest '' @ [Group (Plus Digit)] @ lit '' ('',
      lit ''Manifest ID: '' @ [Group (Plus Digit)],
      lit ''manifest id: '' @ [Group (Plus Digit)],
      lit ''manifest:'' @ [Plain (Star Space), Group (Plus Digit)]]"

text \<open>
  The loop over the patterns: the value of \<^verbatim>\<open>manifestMatch[1]\<close> for the first pattern
  that matches, which is \<^verbatim>\<open>undefined\<close> (here \<^term>\<open>None\<close>) for a match without a first group.
\<close>

fun firstPatternMatch :: "piece list list \<Rightarrow> string \<Rightarrow> string option option" where
  "firstPatternMatch [] t = None"
| "firstPatternMatch (p # ps) t =
     (case search p t of
        None \<Rightarrow> firstPatternMatch ps t
      | Some captures \<Rightarrow> Some (case captures of [] \<Rightarrow> None | g # _ \<Rightarrow> Some g))"

definition manifestFailure :: "result \<Rightarrow> exn" where
  "manifestFailure r =
     Error (''Failed to get manifest ID: '' @
            orString (error r) ''Could not parse manifest ID from output'')"

definition getLatestManifestId ::
  "'w env \<Rightarrow> depotDownloader \<Rightarrow> nat \<Rightarrow> nat \<Rightarrow>
   ('w, 'm) sys_scheme \<Rightarrow> (exn + string option) \<times> ('w, 'm) sys_scheme" where
  "getLatestManifestId env this appId depotId =
     bindE (ensureDepotDownloaderExists env this) (\<lambda>_ s.
       let args = [''-app'', toString appId, ''-depot'', toString depotId,
                   ''-username'', username this, ''-password'', password this,
                   ''-manifest-only''];
           (r, s1) = runDepotDownloader env this args 2 s
       in if success r then
            (case outputText r of
               None \<Rightarrow>
                 (Inl (Error (''Cannot read properties of undefined (reading '' @ [CHR 0x27] @
                              ''match'' @ [CHR 0x27] @ '')'')), s1)
             | Some t \<Rightarrow>
                 (case firstPatternMatch manifestPatterns t of
                    None \<Rightarrow> (Inl (manifestFailure r), s1)
                  | Some manifestId \<Rightarrow> (Inr manifestId, s1)))
          else (Inl (manifestFailure r), s1))"

chapter \<open>Vocabulary of the statements\<close>

text \<open>
  Predicates and functions that occur only in statements about the program: which entry
  contributes which index, the kinds of events in a trace, the events of a sequence of
  attempts, and what a capture group of digits is.
\<close>

definition contributes :: "vpkDir \<Rightarrow> string list \<Rightarrow> string \<Rightarrow> nat \<Rightarrow> bool" where
  "contributes vd folders f i \<longleftrightarrow>
     list_ex (\<lambda>s. prefix s f) folders \<and>
     (case tree vd f of
        None \<Rightarrow> False
      | Some info \<Rightarrow> archiveIndex info = Some i)"

text \<open>
  Modelled from the spec: the sentinel value of \<^verbatim>\<open>shardIndex\<close>, a non-negative integer that
  marks an entry stored in the directory file itself rather than in a shard. The
  repository's code never names it: the directory is read by the package \<^verbatim>\<open>vpk\<close>, which is
  not part of the repository, and the format it reads uses \<^verbatim>\<open>0x7fff\<close>.
\<close>

definition shardIndexSentinel :: nat where
  "shardIndexSentinel = 0x7fff"

fun isDownloadCall :: "event \<Rightarrow> bool" where
  "isDownloadCall (CallDownloadSpecificFiles _ _ _ _ _ _) = True"
| "isDownloadCall (CallDownloadMultipleFiles _ _ _ _ _ _) = True"
| "isDownloadCall _ = False"

fun isExtractCall :: "event \<Rightarrow> bool" where
  "isExtractCall (CallExtractVPKFolder _ _ _ _) = True"
| "isExtractCall _ = False"

definition extractEvent :: "string \<Rightarrow> string \<Rightarrow> string \<Rightarrow> exn + result \<Rightarrow> event" where
  "extractEvent vpkDirPath outDir f response =
     CallExtractVPKFolder vpkDirPath outDir
       \<lparr> extension = ''vtex_c'', folder = f, decompile = True \<rparr> response"



text \<open>
  The events of a sequence of attempts that starts at attempt number \<open>k\<close>, given the
  results of the attempts made: a wait stands between two consecutive attempts.
\<close>

fun attemptEvents :: "string \<Rightarrow> nat \<Rightarrow> result list \<Rightarrow> event list" where
  "attemptEvents c k [] = []"
| "attemptEvents c k [r] = [Spawn c (30 * 60 * 1000) r]"
| "attemptEvents c k (r # r' # rs) =
     Spawn c (30 * 60 * 1000) r # Wait (backoffTime k) # attemptEvents c (Suc k) (r' # rs)"


definition digitGroup :: "piece \<Rightarrow> bool" where
  "digitGroup p \<longleftrightarrow> (case p of Plain _ \<Rightarrow> True | Group a \<Rightarrow> a = Plus Digit)"

definition digitString :: "string \<Rightarrow> bool" where
  "digitString t \<longleftrightarrow> t \<noteq> [] \<and> list_all isDigit t"

chapter \<open>Concrete inputs\<close>

section \<open>A directory\<close>

text \<open>
  A small directory used to evaluate the planner: two entries in shard 12 under \<^verbatim>\<open>a/\<close>, one
  entry in shard 3 under \<^verbatim>\<open>b/\<close>, and one entry under \<^verbatim>\<open>a/\<close> without an archive index.
\<close>

definition example_dir :: vpkDir where
  "example_dir =
     \<lparr> files = [''a/x.vtex_c'', ''b/y.vtex_c'', ''a/z.vtex_c'', ''a/w.vtex_c''],
       tree = [''a/x.vtex_c'' \<mapsto> \<lparr> archiveIndex = Some 12 \<rparr>,
               ''b/y.vtex_c'' \<mapsto> \<lparr> archiveIndex = Some 3 \<rparr>,
               ''a/z.vtex_c'' \<mapsto> \<lparr> archiveIndex = Some 12 \<rparr>,
               ''a/w.vtex_c'' \<mapsto> \<lparr> archiveIndex = None \<rparr>] \<rparr>"

text \<open>
  A directory with an entry under \<^verbatim>\<open>a/\<close> whose archive index is the sentinel, between an
  entry in shard 12 and an entry in shard 3.
\<close>

definition embedded_dir :: vpkDir where
  "embedded_dir =
     \<lparr> files = [''a/x.vtex_c'', ''a/e.vtex_c'', ''b/y.vtex_c''],
       tree = [''a/x.vtex_c'' \<mapsto> \<lparr> archiveIndex = Some 12 \<rparr>,
               ''a/e.vtex_c'' \<mapsto> \<lparr> archiveIndex = Some shardIndexSentinel \<rparr>,
               ''b/y.vtex_c'' \<mapsto> \<lparr> archiveIndex = Some 3 \<rparr>] \<rparr>"

section \<open>A simulated environment for the orchestrator\<close>

text \<open>
  Concrete inputs for evaluating runs. The world is the list of existing paths; the
  directory fetch puts \<^verbatim>\<open>pak01_dir.vpk\<close> into the scratch directory, loading it yields
  \<^term>\<open>example_dir\<close>, the batch fetch answers with a given result, the decompiler fails for
  the folders a given predicate selects, \<^verbatim>\<open>rmSync\<close> throws when told to, and \<^verbatim>\<open>mkdirSync\<close>
  throws for the paths listed as unwritable.
\<close>

definition succeeded :: result where
  "succeeded = \<lparr> success = True, error = None, outputText = Some [] \<rparr>"

definition exited1 :: result where
  "exited1 = \<lparr> success = False, error = Some ''Process exited with code 1'', outputText = Some [] \<rparr>"

definition sim_env :: "result \<Rightarrow> (string \<Rightarrow> bool) \<Rightarrow> bool \<Rightarrow> string list \<Rightarrow> (string list) env" where
  "sim_env batchResult failing rmFails unwritable =
     \<lparr> platform = ''linux'',
       pathJoin = join ''/'',
       existsSync = (\<lambda>p w. p \<in> set w),
       mkdirSync = (\<lambda>p w. if p \<in> set unwritable then (Inl (Error ''EACCES''), w) else (Inr (), p # w)),
       rmSync = (\<lambda>p w. if rmFails then (Inl (Error ''EBUSY''), w)
                        else (Inr (), filter (\<lambda>q. \<not> prefix p q) w)),
       writeFileSync = (\<lambda>p c w. (Inr (), p # w)),
       unlinkSync = (\<lambda>p w. (Inr (), removeAll p w)),
       spawn = (\<lambda>c t w. (Closed (Some 0) [] [], w)),
       setTimeout = (\<lambda>ms w. w),
       downloadDepotDownloader = (\<lambda>w. (Inr (), w)),
       vpkLoad = (\<lambda>p w. Inr example_dir),
       findImages = (\<lambda>p w. Inr [p @ ''/a/x.png'', p @ ''/a/z.png'']),
       depotDownloader_downloadSpecificFiles =
         (\<lambda>appId depotId manifestId pat out w. (Inr succeeded, (out @ ''/pak01_dir.vpk'') # w)),
       depotDownloader_downloadMultipleFiles =
         (\<lambda>appId depotId manifestId pats out w. (Inr batchResult, w)),
       source2Viewer_extractVPKFolder =
         (\<lambda>p out opts w. (Inr (if failing (folder opts) then exited1 else succeeded), w)) \<rparr>"

definition start :: "string list \<Rightarrow> (string list) machine" where
  "start folders = \<lparr> world = [], trace = [], proc = StreamingVPKProcessor ''./static'' folders \<rparr>"

definition sim_prepared :: "string list \<Rightarrow> (string list) machine" where
  "sim_prepared folders =
     \<lparr> world = [''./static'', ''./temp_vpk''],
       trace = [Mkdir ''./temp_vpk'', Mkdir ''./static''],
       proc = StreamingVPKProcessor ''./static'' folders \<rparr>"

definition sim_fetched :: "nat \<Rightarrow> nat \<Rightarrow> string \<Rightarrow> string list \<Rightarrow> (string list) machine" where
  "sim_fetched a d m folders =
     \<lparr> world = [''./temp_vpk/pak01_dir.vpk'', ''./static'', ''./temp_vpk''],
       trace = [Mkdir ''./temp_vpk'', Mkdir ''./static'',
                CallDownloadSpecificFiles a d m (''csgo/pak01_dir'' @ [CHR 0x5C] @ ''.vpk'')
                  ''./temp_vpk'' (Inr succeeded)],
       proc = StreamingVPKProcessor ''./static'' folders \<rparr>"

definition refused :: "string \<Rightarrow> result" where
  "refused msg = \<lparr> success = False, error = Some msg, outputText = None \<rparr>"

definition sim_downloaded :: "result \<Rightarrow> nat \<Rightarrow> nat \<Rightarrow> string \<Rightarrow> string list \<Rightarrow> (string list) machine" where
  "sim_downloaded b a d m folders =
     (sim_fetched a d m folders)
       \<lparr> trace := trace (sim_fetched a d m folders) @
           [CallDownloadMultipleFiles a d m (map archivePattern [3, 12]) ''./temp_vpk'' (Inr b)] \<rparr>"

section \<open>A simulated command line\<close>

text \<open>
  A world that counts the processes spawned so far; the \<open>n\<close>-th process ends as the
  \<open>n\<close>-th entry of a script says, and with exit code 1 once the script is used up. The
  executable and all directories exist.
\<close>

definition cli_env :: "processOutcome list \<Rightarrow> nat env" where
  "cli_env script =
     \<lparr> platform = ''linux'',
       pathJoin = join ''/'',
       existsSync = (\<lambda>p w. True),
       mkdirSync = (\<lambda>p w. (Inr (), w)),
       rmSync = (\<lambda>p w. (Inr (), w)),
       writeFileSync = (\<lambda>p c w. (Inr (), w)),
       unlinkSync = (\<lambda>p w. (Inr (), w)),
       spawn = (\<lambda>c t w. (if w < length script then script ! w else Closed (Some 1) [] [], Suc w)),
       setTimeout = (\<lambda>ms w. w),
       downloadDepotDownloader = (\<lambda>w. (Inr (), w)),
       vpkLoad = (\<lambda>p w. Inl (Error ''ENOENT'')),
       findImages = (\<lambda>p w. Inr []),
       depotDownloader_downloadSpecificFiles =
         (\<lambda>appId depotId manifestId pat out w. (Inl (Error ''ENOENT''), w)),
       depotDownloader_downloadMultipleFiles =
         (\<lambda>appId depotId manifestId pats out w. (Inl (Error ''ENOENT''), w)),
       source2Viewer_extractVPKFolder = (\<lambda>p out opts w. (Inl (Error ''ENOENT''), w)) \<rparr>"

definition cli_start :: "nat sys" where
  "cli_start = \<lparr> world = 0, trace = [] \<rparr>"

definition cli_options :: "nat option \<Rightarrow> depotOptions" where
  "cli_options n =
     \<lparr> optUsername = ''user'', optPassword = ''secret'', optTempDir = Some ''./temp'',
       optExecutablePath = None, optDownloadAttempts = n \<rparr>"

definition manifest_listing :: string where
  "manifest_listing = ''Got manifest 1597148535702430842 (07/07/2025 21:24:46)''"

chapter \<open>Properties\<close>

section \<open>The planner\<close>

lemma set_set_add: "set (set_add x s) = insert x (set s)"
  by (auto simp: set_add_def)

lemma distinct_set_add: "distinct s \<Longrightarrow> distinct (set_add x s)"
  by (simp add: set_add_def)

text \<open>What one pass of the inner loop does, independent of the order of the folders.\<close>

lemma scanFolders_closed_form:
  "scanFolders vd f folders req =
     (if \<exists>s\<in>set folders. prefix s f then
        (case tree vd f of
           None \<Rightarrow> req
         | Some info \<Rightarrow> (case archiveIndex info of None \<Rightarrow> req | Some i \<Rightarrow> set_add i req))
      else req)"
  by (induction folders) auto

lemma set_scanFolders:
  "set (scanFolders vd f folders req) = set req \<union> {i. contributes vd folders f i}"
  by (auto simp: scanFolders_closed_form contributes_def set_set_add list_ex_iff
      split: option.splits)

lemma distinct_scanFolders: "distinct req \<Longrightarrow> distinct (scanFolders vd f folders req)"
  by (simp add: scanFolders_closed_form distinct_set_add split: option.splits)

lemma set_scanFiles:
  "set (scanFiles vd folders fs req) =
     set req \<union> {i. \<exists>f\<in>set fs. contributes vd folders f i}"
  by (induction fs arbitrary: req) (auto simp: set_scanFolders)

lemma distinct_scanFiles: "distinct req \<Longrightarrow> distinct (scanFiles vd folders fs req)"
  by (induction fs arbitrary: req) (simp_all add: distinct_scanFolders)

lemma set_getRequiredVPKArchives:
  "set (getRequiredVPKArchives this vd) =
     {i. \<exists>f\<in>set (files vd). contributes vd (vpkFolders this) f i}"
  by (simp add: getRequiredVPKArchives_def set_scanFiles)

lemma strict_getRequiredVPKArchives: "sorted_wrt (<) (getRequiredVPKArchives this vd)"
  by (simp add: getRequiredVPKArchives_def strict_sorted_iff distinct_scanFiles)

text \<open>
  Claim C1 (amended). For every directory and selector list, the planner returns exactly
  the archive indices of the entries whose logical path starts with some selector and
  whose \<^verbatim>\<open>archiveIndex\<close> is defined, in strictly ascending order, hence without
  duplicates. The only entries it leaves out are those without an \<^verbatim>\<open>archiveIndex\<close>
  (\<^verbatim>\<open>undefined\<close>); every number, the sentinel included, is planned like any other index.
\<close>

theorem getRequiredVPKArchives_exact:
  "set (getRequiredVPKArchives this vd) =
     {i. \<exists>f\<in>set (files vd).
           (\<exists>s\<in>set (vpkFolders this). prefix s f) \<and>
           (\<exists>info. tree vd f = Some info \<and> archiveIndex info = Some i)}
   \<and> sorted_wrt (<) (getRequiredVPKArchives this vd)
   \<and> distinct (getRequiredVPKArchives this vd)"
proof -
  have "set (getRequiredVPKArchives this vd) =
     {i. \<exists>f\<in>set (files vd).
           (\<exists>s\<in>set (vpkFolders this). prefix s f) \<and>
           (\<exists>info. tree vd f = Some info \<and> archiveIndex info = Some i)}"
    unfolding set_getRequiredVPKArchives contributes_def list_ex_iff
    by (fastforce split: option.splits)
  moreover have "sorted_wrt (<) (getRequiredVPKArchives this vd)"
    by (rule strict_getRequiredVPKArchives)
  moreover have "distinct (getRequiredVPKArchives this vd)"
    using strict_getRequiredVPKArchives [of this vd] by (simp add: strict_sorted_iff)
  ultimately show ?thesis by simp
qed

theorem getRequiredVPKArchives_exact_witness:
  "getRequiredVPKArchives (StreamingVPKProcessor ''./static'' [''b/'', ''a/'']) example_dir = [3, 12]
   \<and> sorted_wrt (<) (getRequiredVPKArchives (StreamingVPKProcessor ''./static'' [''b/'', ''a/'']) example_dir)
   \<and> getRequiredVPKArchives (StreamingVPKProcessor ''./static'' [''a/'']) example_dir = [12]"
  using getRequiredVPKArchives_exact
    [of "StreamingVPKProcessor ''./static'' [''b/'', ''a/'']" example_dir]
  by (simp add: getRequiredVPKArchives_def StreamingVPKProcessor_def example_dir_def
      set_add_def)

text \<open>
  Against claim C1 as stated: the selectors \<^verbatim>\<open>a/\<close> and \<^verbatim>\<open>b/\<close> match an entry whose
  \<^verbatim>\<open>archiveIndex\<close> is the sentinel, and the planner returns the sentinel as the last index
  of the plan. The guard of the planner compares with \<^verbatim>\<open>undefined\<close> only.
\<close>

theorem sentinel_index_is_planned:
  "tree embedded_dir ''a/e.vtex_c'' = Some \<lparr> archiveIndex = Some shardIndexSentinel \<rparr>
   \<and> getRequiredVPKArchives (StreamingVPKProcessor ''./static'' [''a/'', ''b/'']) embedded_dir =
       [3, 12, shardIndexSentinel]
   \<and> shardIndexSentinel \<in>
       set (getRequiredVPKArchives (StreamingVPKProcessor ''./static'' [''a/'', ''b/'']) embedded_dir)"
  by (simp add: getRequiredVPKArchives_def StreamingVPKProcessor_def embedded_dir_def
      shardIndexSentinel_def set_add_def)

text \<open>
  Claim C2. For every directory and any two selector lists that are permutations of each
  other the planner returns the same Shard Set; and what one directory entry does to the
  working set does not depend on how many selectors are prefixes of its path or on their
  order: it is the insertion of that entry's own archive index, once, when some selector
  matches and the index is present, and nothing otherwise.
\<close>

theorem planner_selector_order_irrelevant:
  assumes "mset (vpkFolders a) = mset (vpkFolders b)"
  shows "getRequiredVPKArchives a vd = getRequiredVPKArchives b vd
    \<and> scanFolders vd f (vpkFolders a) req = scanFolders vd f (vpkFolders b) req
    \<and> scanFolders vd f (vpkFolders a) req =
        (if list_ex (\<lambda>s. prefix s f) (vpkFolders a) then
           (case tree vd f of
              None \<Rightarrow> req
            | Some info \<Rightarrow> (case archiveIndex info of None \<Rightarrow> req | Some i \<Rightarrow> set_add i req))
         else req)
    \<and> length (scanFolders vd f (vpkFolders a) req) \<le> Suc (length req)"
proof -
  from assms have same: "set (vpkFolders a) = set (vpkFolders b)"
    by (rule mset_eq_setD)
  then have contrib: "contributes vd (vpkFolders a) g i = contributes vd (vpkFolders b) g i"
    for g i
    by (simp add: contributes_def list_ex_iff)
  have "set (getRequiredVPKArchives a vd) = set (getRequiredVPKArchives b vd)"
    by (simp add: set_getRequiredVPKArchives contrib)
  moreover have "sorted (getRequiredVPKArchives a vd)" "distinct (getRequiredVPKArchives a vd)"
    "sorted (getRequiredVPKArchives b vd)" "distinct (getRequiredVPKArchives b vd)"
    using strict_getRequiredVPKArchives [of a vd] strict_getRequiredVPKArchives [of b vd]
    by (simp_all add: strict_sorted_iff)
  ultimately have plan: "getRequiredVPKArchives a vd = getRequiredVPKArchives b vd"
    by (blast intro: sorted_distinct_set_unique)
  have step: "scanFolders vd f (vpkFolders a) req = scanFolders vd f (vpkFolders b) req"
    by (simp add: scanFolders_closed_form same)
  have form: "scanFolders vd f (vpkFolders a) req =
        (if list_ex (\<lambda>s. prefix s f) (vpkFolders a) then
           (case tree vd f of
              None \<Rightarrow> req
            | Some info \<Rightarrow> (case archiveIndex info of None \<Rightarrow> req | Some i \<Rightarrow> set_add i req))
         else req)"
    by (simp add: scanFolders_closed_form list_ex_iff)
  have len: "length (scanFolders vd f (vpkFolders a) req) \<le> Suc (length req)"
    by (simp add: scanFolders_closed_form set_add_def split: option.splits)
  from plan step form len show ?thesis by blast
qed

theorem planner_selector_order_irrelevant_witness:
  "mset (vpkFolders (StreamingVPKProcessor ''./static'' [''a/'', ''a/x'', ''b/''])) =
     mset (vpkFolders (StreamingVPKProcessor ''./out'' [''b/'', ''a/x'', ''a/'']))
   \<and> getRequiredVPKArchives (StreamingVPKProcessor ''./static'' [''a/'', ''a/x'', ''b/'']) example_dir =
     getRequiredVPKArchives (StreamingVPKProcessor ''./out'' [''b/'', ''a/x'', ''a/'']) example_dir
   \<and> scanFolders example_dir ''a/x.vtex_c'' [''a/'', ''a/x'', ''b/''] [] = [12]
   \<and> scanFolders example_dir ''a/x.vtex_c'' [''b/'', ''a/x'', ''a/''] [] = [12]"
proof -
  have h: "mset (vpkFolders (StreamingVPKProcessor ''./static'' [''a/'', ''a/x'', ''b/''])) =
     mset (vpkFolders (StreamingVPKProcessor ''./out'' [''b/'', ''a/x'', ''a/'']))"
    by (simp add: StreamingVPKProcessor_def)
  have e: "scanFolders example_dir ''a/x.vtex_c'' [''a/'', ''a/x'', ''b/''] [] = [12]"
    "scanFolders example_dir ''a/x.vtex_c'' [''b/'', ''a/x'', ''a/''] [] = [12]"
    by (simp_all add: example_dir_def set_add_def)
  from planner_selector_order_irrelevant [OF h, of example_dir "''a/x.vtex_c''" "[]"] h e
  show ?thesis by blast
qed

section \<open>The stages of a run\<close>

lemma perform_trace:
  "perform ev op s = (r, s') \<Longrightarrow> trace s' = trace s @ [ev r] \<and> world s' = snd (op (world s)) \<and> r = fst (op (world s))"
  by (auto simp: perform_def split: prod.splits)

lemma perform_more: "perform ev op s = (r, s') \<Longrightarrow> sys.more s' = sys.more s"
  by (auto simp: perform_def split: prod.splits)

lemma perform_proc: "perform ev op s = (r, s') \<Longrightarrow> proc s' = proc s"
  by (auto simp: perform_def split: prod.splits)

lemma ensureDirectory_proc: "ensureDirectory env dir s = (r, s') \<Longrightarrow> proc s' = proc s"
  by (auto simp: ensureDirectory_def perform_def split: if_splits prod.splits)

lemma prepareDirectories_proc: "prepareDirectories env s = (r, s') \<Longrightarrow> proc s' = proc s"
  by (fastforce simp: prepareDirectories_def bindE_def split: prod.splits sum.splits
      dest: ensureDirectory_proc)

lemma fetchDirectory_proc: "fetchDirectory env a d m s = (r, s') \<Longrightarrow> proc s' = proc s"
  by (auto simp: fetchDirectory_def bindE_def throwE_def returnE_def call_downloadSpecificFiles_def
      split: prod.splits sum.splits if_splits option.splits dest: perform_proc)

lemma processVPKFiles_entered:
  "prepareDirectories env s = (Inr (), s1) \<Longrightarrow>
   processVPKFiles env a d m s =
     (fst (processBody env a d m s1), cleanup env (snd (processBody env a d m s1)))"
  by (simp add: processVPKFiles_def bindE_def tryFinally_def split: prod.splits)

lemma processVPKFiles_not_entered:
  "prepareDirectories env s = (Inl e, s1) \<Longrightarrow> processVPKFiles env a d m s = (Inl e, s1)"
  by (simp add: processVPKFiles_def bindE_def)

lemma processBody_empty_plan:
  "fetchDirectory env a d m s1 = (Inr (vpkDirPath, vd), s2) \<Longrightarrow>
   getRequiredVPKArchives (proc s2) vd = [] \<Longrightarrow>
   processBody env a d m s1 = (Inr (results (proc s2)), s2)"
  by (simp add: processBody_def bindE_def returnE_def)


lemma processBody_planned:
  "fetchDirectory env a d m s1 = (Inr (vpkDirPath, vd), s2) \<Longrightarrow>
   getRequiredVPKArchives (proc s2) vd \<noteq> [] \<Longrightarrow>
   processBody env a d m s1 =
     bindE (downloadRequiredArchives env a d m (getRequiredVPKArchives (proc s2) vd))
       (\<lambda>_. bindE (extractWithSource2Viewer env vpkDirPath)
               (aggregate env (getRequiredVPKArchives (proc s2) vd))) s2"
  by (simp add: processBody_def bindE_def Let_def)

lemma no_match_no_plan:
  assumes "vpkFolders this = [] \<or> (\<forall>f\<in>set (files vd). \<forall>sel\<in>set (vpkFolders this). \<not> prefix sel f)"
  shows "getRequiredVPKArchives this vd = []"
proof -
  have "set (getRequiredVPKArchives this vd) = {}"
    using assms by (auto simp: set_getRequiredVPKArchives contributes_def list_ex_iff)
  then show ?thesis by simp
qed

text \<open>
  Claim C3. If the selector list is empty or no directory entry matches any selector, the
  planner returns an empty Shard Set, and the run of \<^verbatim>\<open>processVPKFiles\<close> on a freshly
  constructed processor that has obtained the directory returns normally with downloaded
  count 0, extracted count 0 and an empty error list (after the clean-up of the
  \<^verbatim>\<open>finally\<close> block): nothing to do, not a failure.
\<close>

theorem empty_plan_is_nothing_to_do:
  assumes fresh: "proc s = StreamingVPKProcessor out folders"
    and prepared: "prepareDirectories env s = (Inr (), s1)"
    and fetched: "fetchDirectory env appId depotId manifestId s1 = (Inr (vpkDirPath, vd), s2)"
    and nomatch: "folders = [] \<or> (\<forall>f\<in>set (files vd). \<forall>sel\<in>set folders. \<not> prefix sel f)"
  shows "getRequiredVPKArchives (proc s2) vd = []
    \<and> processVPKFiles env appId depotId manifestId s =
        (Inr \<lparr> downloaded = 0, extracted = 0, failed = 0, errors = [] \<rparr>, cleanup env s2)"
proof -
  have p: "proc s2 = StreamingVPKProcessor out folders"
    using fresh prepareDirectories_proc [OF prepared] fetchDirectory_proc [OF fetched] by simp
  have plan: "getRequiredVPKArchives (proc s2) vd = []"
    using nomatch by (intro no_match_no_plan) (simp add: p StreamingVPKProcessor_def)
  have "processBody env appId depotId manifestId s1 = (Inr (results (proc s2)), s2)"
    using fetched plan by (rule processBody_empty_plan)
  then have "processVPKFiles env appId depotId manifestId s = (Inr (results (proc s2)), cleanup env s2)"
    using processVPKFiles_entered [OF prepared] by simp
  then show ?thesis
    using plan by (simp add: p StreamingVPKProcessor_def)
qed

section \<open>Simulated runs: preparation and directory fetch\<close>

lemma sim_env_simps [simp]:
  "pathJoin (sim_env b ff rf uw) = join ''/''"
  "existsSync (sim_env b ff rf uw) = (\<lambda>p w. p \<in> set w)"
  "mkdirSync (sim_env b ff rf uw) =
     (\<lambda>p w. if p \<in> set uw then (Inl (Error ''EACCES''), w) else (Inr (), p # w))"
  "rmSync (sim_env b ff rf uw) =
     (\<lambda>p w. if rf then (Inl (Error ''EBUSY''), w) else (Inr (), filter (\<lambda>q. \<not> prefix p q) w))"
  "vpkLoad (sim_env b ff rf uw) = (\<lambda>p w. Inr example_dir)"
  "findImages (sim_env b ff rf uw) = (\<lambda>p w. Inr [p @ ''/a/x.png'', p @ ''/a/z.png''])"
  "depotDownloader_downloadSpecificFiles (sim_env b ff rf uw) =
     (\<lambda>appId depotId manifestId pat out w. (Inr succeeded, (out @ ''/pak01_dir.vpk'') # w))"
  "depotDownloader_downloadMultipleFiles (sim_env b ff rf uw) =
     (\<lambda>appId depotId manifestId pats out w. (Inr b, w))"
  "source2Viewer_extractVPKFolder (sim_env b ff rf uw) =
     (\<lambda>p out opts w. (Inr (if ff (folder opts) then exited1 else succeeded), w))"
  by (simp_all add: sim_env_def)

lemma sim_prepare:
  "prepareDirectories (sim_env b ff rf []) (start folders) = (Inr (), sim_prepared folders)"
  by (simp add: prepareDirectories_def ensureDirectory_def bindE_def perform_def start_def
      sim_prepared_def StreamingVPKProcessor_def)

lemma sim_fetch:
  "fetchDirectory (sim_env b ff rf uw) a d m (sim_prepared folders) =
     (Inr (''./temp_vpk/pak01_dir.vpk'', example_dir), sim_fetched a d m folders)"
  by (simp add: fetchDirectory_def call_downloadSpecificFiles_def findVPKDirFile_def
      bindE_def returnE_def throwE_def perform_def sim_prepared_def sim_fetched_def
      StreamingVPKProcessor_def succeeded_def)

theorem empty_plan_is_nothing_to_do_witness:
  "prepareDirectories (sim_env succeeded (\<lambda>f. False) False []) (start [''c/'']) =
     (Inr (), sim_prepared [''c/''])
   \<and> fetchDirectory (sim_env succeeded (\<lambda>f. False) False []) 730 2347770 ''77'' (sim_prepared [''c/'']) =
     (Inr (''./temp_vpk/pak01_dir.vpk'', example_dir), sim_fetched 730 2347770 ''77'' [''c/''])
   \<and> getRequiredVPKArchives (proc (sim_fetched 730 2347770 ''77'' [''c/''])) example_dir = []
   \<and> processVPKFiles (sim_env succeeded (\<lambda>f. False) False []) 730 2347770 ''77'' (start [''c/'']) =
       (Inr \<lparr> downloaded = 0, extracted = 0, failed = 0, errors = [] \<rparr>,
        cleanup (sim_env succeeded (\<lambda>f. False) False []) (sim_fetched 730 2347770 ''77'' [''c/'']))"
proof -
  have fresh: "proc (start [''c/'']) = StreamingVPKProcessor ''./static'' [''c/'']"
    by (simp add: start_def)
  have nomatch: "[''c/''] = [] \<or>
      (\<forall>f\<in>set (files example_dir). \<forall>sel\<in>set [''c/'']. \<not> prefix sel f)"
    by (simp add: example_dir_def)
  from empty_plan_is_nothing_to_do [OF fresh sim_prepare sim_fetch nomatch] sim_prepare sim_fetch
  show ?thesis by blast
qed

section \<open>What a run adds to the trace\<close>

lemma ensureDirectory_calls:
  "ensureDirectory env dir s = (r, s') \<Longrightarrow>
   filter isDownloadCall (trace s') = filter isDownloadCall (trace s) \<and>
   filter isExtractCall (trace s') = filter isExtractCall (trace s)"
  by (auto simp: ensureDirectory_def perform_def split: if_splits prod.splits)

lemma prepareDirectories_calls:
  "prepareDirectories env s = (r, s') \<Longrightarrow>
   filter isDownloadCall (trace s') = filter isDownloadCall (trace s) \<and>
   filter isExtractCall (trace s') = filter isExtractCall (trace s)"
  by (fastforce simp: prepareDirectories_def bindE_def split: prod.splits sum.splits
      dest: ensureDirectory_calls)

lemma fetchDirectory_trace:
  "fetchDirectory env a d m s = (r, s') \<Longrightarrow>
   trace s' = trace s @
     [CallDownloadSpecificFiles a d m (''csgo/pak01_dir'' @ [CHR 0x5C] @ ''.vpk'')
        (tempVpkDir (proc s))
        (fst (depotDownloader_downloadSpecificFiles env a d m
               (''csgo/pak01_dir'' @ [CHR 0x5C] @ ''.vpk'') (tempVpkDir (proc s)) (world s)))]"
  by (auto simp: fetchDirectory_def bindE_def throwE_def returnE_def
      call_downloadSpecificFiles_def perform_def
      split: prod.splits sum.splits if_splits option.splits)

lemma downloadRequiredArchives_unfold:
  "depotDownloader_downloadMultipleFiles env a d m (map archivePattern plan)
     (tempVpkDir (proc s)) (world s) = (response, w') \<Longrightarrow>
   downloadRequiredArchives env a d m plan s =
     ((case response of
         Inl e \<Rightarrow> Inl e
       | Inr r \<Rightarrow>
           if \<not> success r then
             Inl (Error (''Failed to batch download VPK archives: '' @ template (error r)))
           else Inr ()),
      s\<lparr> world := w',
         trace := trace s @
           [CallDownloadMultipleFiles a d m (map archivePattern plan) (tempVpkDir (proc s))
              response] \<rparr>)"
  by (simp add: downloadRequiredArchives_def bindE_def throwE_def returnE_def
      call_downloadMultipleFiles_def perform_def split: sum.splits)

lemma extractFolders_returns:
  "extractFolders env p fs rs s = (Inr out, s') \<Longrightarrow>
   \<exists>ds. out = rs @ ds \<and> length ds = length fs \<and> proc s' = proc s \<and>
        trace s' = trace s @ map2 (extractEvent p (outputDir (proc s))) fs (map Inr ds)"
proof (induction fs arbitrary: rs s)
  case Nil
  then show ?case by simp
next
  case (Cons f fs)
  from Cons.prems obtain r s1 where
    call: "call_extractVPKFolder env p (outputDir (proc s))
             \<lparr> extension = ''vtex_c'', folder = f, decompile = True \<rparr> s = (Inr r, s1)"
    and rest: "extractFolders env p fs (rs @ [r]) s1 = (Inr out, s')"
    by (auto split: prod.splits sum.splits)
  from call have s1: "proc s1 = proc s"
    "trace s1 = trace s @ [extractEvent p (outputDir (proc s)) f (Inr r)]"
    by (auto simp: call_extractVPKFolder_def perform_def extractEvent_def split: prod.splits)
  from Cons.IH [OF rest] obtain ds where
    ds: "out = (rs @ [r]) @ ds" "length ds = length fs" "proc s' = proc s1"
      "trace s' = trace s1 @ map2 (extractEvent p (outputDir (proc s1))) fs (map Inr ds)"
    by blast
  have "out = rs @ (r # ds)" "length (r # ds) = length (f # fs)" "proc s' = proc s"
    "trace s' = trace s @ map2 (extractEvent p (outputDir (proc s))) (f # fs) (map Inr (r # ds))"
    using ds s1 by simp_all
  then show ?case by blast
qed

lemma extractFolders_calls:
  "extractFolders env p fs rs s = (r, s') \<Longrightarrow>
   filter isDownloadCall (trace s') = filter isDownloadCall (trace s) \<and> proc s' = proc s"
proof (induction fs arbitrary: rs s)
  case Nil
  then show ?case by simp
next
  case (Cons f fs)
  show ?case
  proof (cases "call_extractVPKFolder env p (outputDir (proc s))
             \<lparr> extension = ''vtex_c'', folder = f, decompile = True \<rparr> s")
    case (Pair x s1)
    then have s1: "proc s1 = proc s"
      "filter isDownloadCall (trace s1) = filter isDownloadCall (trace s)"
      by (auto simp: call_extractVPKFolder_def perform_def split: prod.splits)
    show ?thesis
    proof (cases x)
      case (Inl e)
      with Pair Cons.prems s1 show ?thesis by simp
    next
      case (Inr y)
      with Pair Cons.prems have "extractFolders env p fs (rs @ [y]) s1 = (r, s')" by simp
      from Cons.IH [OF this] s1 show ?thesis by simp
    qed
  qed
qed

lemma extractFolders_total:
  assumes "\<And>p out opts w. \<exists>r w'. source2Viewer_extractVPKFolder env p out opts w = (Inr r, w')"
  shows "\<exists>out s'. extractFolders env p fs rs s = (Inr out, s')"
proof (induction fs arbitrary: rs s)
  case Nil
  then show ?case by simp
next
  case (Cons f fs)
  from assms obtain r w' where
    "source2Viewer_extractVPKFolder env p (outputDir (proc s))
       \<lparr> extension = ''vtex_c'', folder = f, decompile = True \<rparr> (world s) = (Inr r, w')"
    by blast
  then obtain s1 where "call_extractVPKFolder env p (outputDir (proc s))
       \<lparr> extension = ''vtex_c'', folder = f, decompile = True \<rparr> s = (Inr r, s1)"
    by (simp add: call_extractVPKFolder_def perform_def)
  with Cons.IH [of "rs @ [r]" s1] show ?case by auto
qed

lemma extractFolders_responses:
  "extractFolders env p fs rs s = (Inr out, s') \<Longrightarrow>
   (\<And>out' opts w r w'. source2Viewer_extractVPKFolder env p out' opts w = (Inr r, w') \<Longrightarrow> P r) \<Longrightarrow>
   list_all P rs \<Longrightarrow> list_all P out"
proof (induction fs arbitrary: rs s)
  case Nil
  then show ?case by simp
next
  case (Cons f fs)
  from Cons.prems(1) obtain r s1 where
    call: "call_extractVPKFolder env p (outputDir (proc s))
             \<lparr> extension = ''vtex_c'', folder = f, decompile = True \<rparr> s = (Inr r, s1)"
    and rest: "extractFolders env p fs (rs @ [r]) s1 = (Inr out, s')"
    by (auto split: prod.splits sum.splits)
  from call have "P r"
    by (auto simp: call_extractVPKFolder_def perform_def split: prod.splits intro: Cons.prems(2))
  with Cons.prems(3) have "list_all P (rs @ [r])" by simp
  from Cons.IH [OF rest Cons.prems(2) this] show ?case .
qed

lemma aggregate_trace: "aggregate env plan r s = (x, s') \<Longrightarrow> trace s' = trace s"
  by (auto simp: aggregate_def Let_def split: if_splits sum.splits)

lemma cleanup_trace:
  "trace (cleanup env s) =
     trace s @ (if existsSync env (tempVpkDir (proc s)) (world s) then [Rm (tempVpkDir (proc s))] else [])"
  by (simp add: cleanup_def perform_def split: prod.splits)

lemma extractWithSource2Viewer_calls:
  "extractWithSource2Viewer env p s = (r, s') \<Longrightarrow>
   filter isDownloadCall (trace s') = filter isDownloadCall (trace s) \<and> proc s' = proc s"
  by (auto simp: extractWithSource2Viewer_def bindE_def returnE_def Let_def
      split: prod.splits sum.splits dest: extractFolders_calls)

lemma extraction_then_aggregate_calls:
  "bindE (extractWithSource2Viewer env p) (aggregate env plan) s = (r, s') \<Longrightarrow>
   filter isDownloadCall (trace s') = filter isDownloadCall (trace s)"
  by (fastforce simp: bindE_def split: prod.splits sum.splits
      dest: extractWithSource2Viewer_calls aggregate_trace)

lemma cleanup_calls:
  "filter isDownloadCall (trace (cleanup env s)) = filter isDownloadCall (trace s)"
  "filter isExtractCall (trace (cleanup env s)) = filter isExtractCall (trace s)"
  by (simp_all add: cleanup_trace)

lemma fetchDirectory_calls:
  "fetchDirectory env a d m s = (r, s') \<Longrightarrow>
   filter isExtractCall (trace s') = filter isExtractCall (trace s)"
  by (drule fetchDirectory_trace) simp

text \<open>
  Claim C4. Once the directory is loaded and the plan is not empty, a run issues exactly one
  \<^verbatim>\<open>downloadMultipleFiles\<close> call, carrying one file pattern per planned index, and no
  download call besides it and the earlier fetch of the directory file; if that call
  throws, or returns a result whose \<^verbatim>\<open>success\<close> is false, the run ends with an error and
  the decompiler is never invoked: the orchestrator neither retries nor fetches shard by
  shard.
\<close>

theorem single_batched_fetch:
  assumes prepared: "prepareDirectories env s = (Inr (), s1)"
    and fetched: "fetchDirectory env appId depotId manifestId s1 = (Inr (vpkDirPath, vd), s2)"
    and planned: "getRequiredVPKArchives (proc s2) vd = plan" "plan \<noteq> []"
    and response: "depotDownloader_downloadMultipleFiles env appId depotId manifestId
                     (map archivePattern plan) (tempVpkDir (proc s2)) (world s2) = (response, w3)"
  shows "filter isDownloadCall (trace (snd (processVPKFiles env appId depotId manifestId s))) =
           filter isDownloadCall (trace s2) @
             [CallDownloadMultipleFiles appId depotId manifestId (map archivePattern plan)
                (tempVpkDir (proc s2)) response]
    \<and> filter isDownloadCall (trace s2) =
           filter isDownloadCall (trace s) @
             [CallDownloadSpecificFiles appId depotId manifestId
                (''csgo/pak01_dir'' @ [CHR 0x5C] @ ''.vpk'') (tempVpkDir (proc s1))
                (fst (depotDownloader_downloadSpecificFiles env appId depotId manifestId
                       (''csgo/pak01_dir'' @ [CHR 0x5C] @ ''.vpk'') (tempVpkDir (proc s1)) (world s1)))]
    \<and> length (map archivePattern plan) = length plan
    \<and> (case response of
          Inl e \<Rightarrow> fst (processVPKFiles env appId depotId manifestId s) = Inl e
        | Inr r \<Rightarrow>
            \<not> success r \<longrightarrow>
              fst (processVPKFiles env appId depotId manifestId s) =
                Inl (Error (''Failed to batch download VPK archives: '' @ template (error r)))
              \<and> filter isExtractCall (trace (snd (processVPKFiles env appId depotId manifestId s))) =
                  filter isExtractCall (trace s))"
proof -
  let ?run = "processVPKFiles env appId depotId manifestId s"
  let ?batch = "CallDownloadMultipleFiles appId depotId manifestId (map archivePattern plan)
                  (tempVpkDir (proc s2)) response"
  let ?s3 = "s2\<lparr> world := w3, trace := trace s2 @ [?batch] \<rparr>"
  let ?K = "bindE (extractWithSource2Viewer env vpkDirPath) (aggregate env plan)"
  have run: "?run = (fst (processBody env appId depotId manifestId s1),
                     cleanup env (snd (processBody env appId depotId manifestId s1)))"
    by (rule processVPKFiles_entered [OF prepared])
  have body: "processBody env appId depotId manifestId s1 =
      bindE (downloadRequiredArchives env appId depotId manifestId plan) (\<lambda>_. ?K) s2"
    using processBody_planned [OF fetched] planned by simp
  note dl = downloadRequiredArchives_unfold [OF response]
  have quiet: "filter isExtractCall (trace s2) = filter isExtractCall (trace s)"
    using prepareDirectories_calls [OF prepared] fetchDirectory_calls [OF fetched] by simp
  have dir: "filter isDownloadCall (trace s2) =
           filter isDownloadCall (trace s) @
             [CallDownloadSpecificFiles appId depotId manifestId
                (''csgo/pak01_dir'' @ [CHR 0x5C] @ ''.vpk'') (tempVpkDir (proc s1))
                (fst (depotDownloader_downloadSpecificFiles env appId depotId manifestId
                       (''csgo/pak01_dir'' @ [CHR 0x5C] @ ''.vpk'') (tempVpkDir (proc s1)) (world s1)))]"
    using prepareDirectories_calls [OF prepared] fetchDirectory_trace [OF fetched] by simp
  show ?thesis
  proof (cases response)
    case (Inl e)
    then have "processBody env appId depotId manifestId s1 = (Inl e, ?s3)"
      by (simp add: body bindE_def dl)
    with run Inl dir show ?thesis by (simp add: cleanup_calls)
  next
    case (Inr r)
    show ?thesis
    proof (cases "success r")
      case False
      with Inr have "processBody env appId depotId manifestId s1 =
          (Inl (Error (''Failed to batch download VPK archives: '' @ template (error r))), ?s3)"
        by (simp add: body bindE_def dl)
      with run Inr False quiet dir show ?thesis by (simp add: cleanup_calls)
    next
      case True
      with Inr have b: "processBody env appId depotId manifestId s1 = ?K ?s3"
        by (simp add: body bindE_def dl)
      obtain x s5 where k: "?K ?s3 = (x, s5)" by (cases "?K ?s3")
      from extraction_then_aggregate_calls [OF k]
      have "filter isDownloadCall (trace s5) = filter isDownloadCall (trace s2) @ [?batch]"
        by simp
      with run b k Inr True dir show ?thesis by (simp add: cleanup_calls)
    qed
  qed
qed

lemma downloadRequiredArchives_proc:
  "downloadRequiredArchives env a d m plan s = (r, s') \<Longrightarrow> proc s' = proc s"
  by (auto simp: downloadRequiredArchives_def bindE_def throwE_def returnE_def
      call_downloadMultipleFiles_def perform_def split: prod.splits sum.splits if_splits)

lemma extractWithSource2Viewer_returns:
  assumes "\<And>p out opts w. \<exists>r w'. source2Viewer_extractVPKFolder env p out opts w = (Inr r, w')"
  shows "\<exists>ds s'. extractWithSource2Viewer env vpkDirPath s =
           (Inr \<lparr> success = 0 < length (filter success ds),
                  error = (if length (filter success ds) = 0
                           then Some ''No folders could be extracted'' else None),
                  outputText = None, details = ds \<rparr>, s')
         \<and> extractFolders env vpkDirPath (vpkFolders (proc s)) [] s = (Inr ds, s')
         \<and> length ds = length (vpkFolders (proc s)) \<and> proc s' = proc s
         \<and> trace s' = trace s @
             map2 (extractEvent vpkDirPath (outputDir (proc s))) (vpkFolders (proc s)) (map Inr ds)"
proof -
  from extractFolders_total [OF assms] obtain ds s' where
    ex: "extractFolders env vpkDirPath (vpkFolders (proc s)) [] s = (Inr ds, s')"
    by blast
  from extractFolders_returns [OF ex] have
    "length ds = length (vpkFolders (proc s))" "proc s' = proc s"
    "trace s' = trace s @
       map2 (extractEvent vpkDirPath (outputDir (proc s))) (vpkFolders (proc s)) (map Inr ds)"
    by auto
  moreover have "extractWithSource2Viewer env vpkDirPath s =
           (Inr \<lparr> success = 0 < length (filter success ds),
                  error = (if length (filter success ds) = 0
                           then Some ''No folders could be extracted'' else None),
                  outputText = None, details = ds \<rparr>, s')"
    by (simp add: extractWithSource2Viewer_def bindE_def returnE_def ex Let_def)
  ultimately show ?thesis using ex by blast
qed

text \<open>
  Claim C5 (amended). When every decompiler invocation returns a result, the Extracting
  stage invokes the decompiler once per selector, in listed order, whatever the
  \<^verbatim>\<open>success\<close> flags of the earlier invocations; the extraction result holds one outcome
  per selector in \<^verbatim>\<open>details\<close> and is a success exactly when some outcome is; with more
  than one selector and exactly one failed outcome it is a success with N - 1 successful
  outcomes. The stage leaves the processor, hence \<^verbatim>\<open>this.results\<close>, untouched, and on a
  successful extraction the Run Result differs from the earlier one only in the
  \<^verbatim>\<open>extracted\<close> and \<^verbatim>\<open>downloaded\<close> counters: no failure entry is recorded.
\<close>

theorem partial_failure_tolerated:
  assumes returns:
    "\<And>p out opts w. \<exists>r w'. source2Viewer_extractVPKFolder env p out opts w = (Inr r, w')"
  shows "\<exists>r s'. extractWithSource2Viewer env vpkDirPath s = (Inr r, s')
    \<and> trace s' = trace s @
        map2 (extractEvent vpkDirPath (outputDir (proc s))) (vpkFolders (proc s))
          (map Inr (details r))
    \<and> length (details r) = length (vpkFolders (proc s))
    \<and> success r = list_ex success (details r)
    \<and> (1 < length (vpkFolders (proc s)) \<and>
        length (filter (\<lambda>d. \<not> success d) (details r)) = 1 \<longrightarrow>
          success r \<and>
          length (filter success (details r)) = length (vpkFolders (proc s)) - 1)
    \<and> proc s' = proc s
    \<and> (success r \<longrightarrow>
         (\<forall>imgs. findExtractedImages env s' = Inr imgs \<longrightarrow>
            fst (aggregate env plan r s') =
              Inr ((results (proc s))\<lparr> extracted := length imgs, downloaded := length plan \<rparr>)))"
proof -
  from extractWithSource2Viewer_returns [OF returns, of vpkDirPath s] obtain ds s' where
    r: "extractWithSource2Viewer env vpkDirPath s =
           (Inr \<lparr> success = 0 < length (filter success ds),
                  error = (if length (filter success ds) = 0
                           then Some ''No folders could be extracted'' else None),
                  outputText = None, details = ds \<rparr>, s')"
    and len: "length ds = length (vpkFolders (proc s))" and p: "proc s' = proc s"
    and tr: "trace s' = trace s @
             map2 (extractEvent vpkDirPath (outputDir (proc s))) (vpkFolders (proc s)) (map Inr ds)"
    by blast
  let ?r = "\<lparr> success = 0 < length (filter success ds),
                  error = (if length (filter success ds) = 0
                           then Some ''No folders could be extracted'' else None),
                  outputText = None, details = ds \<rparr>"
  have some: "(0 < length (filter success ds)) = list_ex success ds"
    by (simp add: list_ex_iff filter_empty_conv)
  have count: "length (filter success ds) + length (filter (\<lambda>d. \<not> success d) ds) = length ds"
    by (rule sum_length_filter_compl)
  have partial: "1 < length (vpkFolders (proc s)) \<and> length (filter (\<lambda>d. \<not> success d) ds) = 1 \<longrightarrow>
      0 < length (filter success ds) \<and>
      length (filter success ds) = length (vpkFolders (proc s)) - 1"
    using count len by arith
  have agg: "success ?r \<longrightarrow>
         (\<forall>imgs. findExtractedImages env s' = Inr imgs \<longrightarrow>
            fst (aggregate env plan ?r s') =
              Inr ((results (proc s))\<lparr> extracted := length imgs, downloaded := length plan \<rparr>))"
    by (simp add: aggregate_def Let_def p)
  show ?thesis
    apply (rule exI [of _ ?r], rule exI [of _ s'])
    using r len p tr some partial agg by simp
qed

text \<open>
  Claim C6 (amended). If the run of a fresh processor reaches the Extracting stage and
  every decompiler invocation returns a result with \<^verbatim>\<open>success\<close> false, the extraction
  result is a failure with the message \<^verbatim>\<open>No folders could be extracted\<close> and N failed
  outcomes in \<^verbatim>\<open>details\<close>, and \<^verbatim>\<open>processVPKFiles\<close> returns normally the Run Result
  with downloaded 0, extracted 0, failed 1 and an empty error list.
\<close>

theorem all_selectors_fail:
  assumes fresh: "proc s = StreamingVPKProcessor out folders"
    and prepared: "prepareDirectories env s = (Inr (), s1)"
    and fetched: "fetchDirectory env appId depotId manifestId s1 = (Inr (vpkDirPath, vd), s2)"
    and planned: "getRequiredVPKArchives (proc s2) vd = plan" "plan \<noteq> []"
    and downloaded: "downloadRequiredArchives env appId depotId manifestId plan s2 = (Inr (), s3)"
    and allfail: "\<And>p out opts w.
       \<exists>r w'. source2Viewer_extractVPKFolder env p out opts w = (Inr r, w') \<and> \<not> success r"
  shows "\<exists>r s4. extractWithSource2Viewer env vpkDirPath s3 = (Inr r, s4)
    \<and> \<not> success r \<and> error r = Some ''No folders could be extracted''
    \<and> length (details r) = length folders
    \<and> list_all (\<lambda>d. \<not> success d) (details r)
    \<and> fst (processVPKFiles env appId depotId manifestId s) =
        Inr \<lparr> downloaded = 0, extracted = 0, failed = 1, errors = [] \<rparr>"
proof -
  have p3: "proc s3 = StreamingVPKProcessor out folders"
    using fresh prepareDirectories_proc [OF prepared] fetchDirectory_proc [OF fetched]
      downloadRequiredArchives_proc [OF downloaded] by simp
  have returns: "\<exists>r w'. source2Viewer_extractVPKFolder env p out' opts w = (Inr r, w')"
    for p out' opts w
    using allfail [of p out' opts w] by blast
  from extractWithSource2Viewer_returns [OF returns, of vpkDirPath s3] obtain ds s4 where
    r: "extractWithSource2Viewer env vpkDirPath s3 =
           (Inr \<lparr> success = 0 < length (filter success ds),
                  error = (if length (filter success ds) = 0
                           then Some ''No folders could be extracted'' else None),
                  outputText = None, details = ds \<rparr>, s4)"
    and ex: "extractFolders env vpkDirPath (vpkFolders (proc s3)) [] s3 = (Inr ds, s4)"
    and len: "length ds = length (vpkFolders (proc s3))" and p4: "proc s4 = proc s3"
    by blast
  have bad: "list_all (\<lambda>d. \<not> success d) ds"
  proof (rule extractFolders_responses [OF ex])
    fix out' opts w r w'
    assume "source2Viewer_extractVPKFolder env vpkDirPath out' opts w = (Inr r, w')"
    with allfail [of vpkDirPath out' opts w] show "\<not> success r" by auto
  qed simp
  then have none: "filter success ds = []"
    by (simp add: filter_empty_conv list_all_iff)
  let ?r = "\<lparr> success = False, error = Some ''No folders could be extracted'',
              outputText = None, details = ds \<rparr>"
  have r': "extractWithSource2Viewer env vpkDirPath s3 = (Inr ?r, s4)"
    using r none by simp
  have body: "processBody env appId depotId manifestId s1 =
      bindE (downloadRequiredArchives env appId depotId manifestId plan)
        (\<lambda>_. bindE (extractWithSource2Viewer env vpkDirPath) (aggregate env plan)) s2"
    using processBody_planned [OF fetched] planned by simp
  have "fst (processBody env appId depotId manifestId s1) =
      Inr \<lparr> downloaded = 0, extracted = 0, failed = 1, errors = [] \<rparr>"
    by (simp add: body bindE_def downloaded r' aggregate_def Let_def p4 p3
        StreamingVPKProcessor_def)
  then have "fst (processVPKFiles env appId depotId manifestId s) =
      Inr \<lparr> downloaded = 0, extracted = 0, failed = 1, errors = [] \<rparr>"
    by (simp add: processVPKFiles_entered [OF prepared])
  moreover have "length ds = length folders"
    using len p3 by (simp add: StreamingVPKProcessor_def)
  ultimately show ?thesis
    apply (intro exI [of _ ?r] exI [of _ s4])
    using r' bad by simp
qed

text \<open>
  Claim C7 (amended). If the batched fetch returns \<^verbatim>\<open>{success: false, error: msg}\<close>, for
  any message text, the run ends at once with the error
  \<^verbatim>\<open>Failed to batch download VPK archives: msg\<close>, the clean-up runs, and no selector is
  processed; the text of the message is copied, never inspected.
\<close>

theorem batch_failure_is_fatal:
  assumes prepared: "prepareDirectories env s = (Inr (), s1)"
    and fetched: "fetchDirectory env appId depotId manifestId s1 = (Inr (vpkDirPath, vd), s2)"
    and planned: "getRequiredVPKArchives (proc s2) vd = plan" "plan \<noteq> []"
    and response: "depotDownloader_downloadMultipleFiles env appId depotId manifestId
                     (map archivePattern plan) (tempVpkDir (proc s2)) (world s2) =
                   (Inr \<lparr> success = False, error = Some msg, outputText = ot \<rparr>, w3)"
  shows "processVPKFiles env appId depotId manifestId s =
          (Inl (Error (''Failed to batch download VPK archives: '' @ msg)),
           cleanup env (s2\<lparr> world := w3, trace := trace s2 @
             [CallDownloadMultipleFiles appId depotId manifestId (map archivePattern plan)
                (tempVpkDir (proc s2))
                (Inr \<lparr> success = False, error = Some msg, outputText = ot \<rparr>)] \<rparr>))
    \<and> filter isExtractCall (trace (snd (processVPKFiles env appId depotId manifestId s))) =
        filter isExtractCall (trace s)"
proof -
  have body: "processBody env appId depotId manifestId s1 =
      bindE (downloadRequiredArchives env appId depotId manifestId plan)
        (\<lambda>_. bindE (extractWithSource2Viewer env vpkDirPath) (aggregate env plan)) s2"
    using processBody_planned [OF fetched] planned by simp
  have quiet: "filter isExtractCall (trace s2) = filter isExtractCall (trace s)"
    using prepareDirectories_calls [OF prepared] fetchDirectory_calls [OF fetched] by simp
  show ?thesis
    by (simp add: processVPKFiles_entered [OF prepared] body bindE_def
        downloadRequiredArchives_unfold [OF response] template_def cleanup_calls quiet)
qed

section \<open>Simulated runs with a non-empty plan\<close>

lemma fixture_simps:
  "success succeeded" "\<not> success exited1"
  "\<not> success (refused msg)" "error (refused msg) = Some msg"
  "proc (start fs) = StreamingVPKProcessor ''./static'' fs"
  "world (start fs) = []" "trace (start fs) = []"
  "proc (sim_prepared fs) = StreamingVPKProcessor ''./static'' fs"
  "proc (sim_fetched a d m fs) = StreamingVPKProcessor ''./static'' fs"
  "world (sim_fetched a d m fs) = [''./temp_vpk/pak01_dir.vpk'', ''./static'', ''./temp_vpk'']"
  "trace (sim_fetched a d m fs) =
     [Mkdir ''./temp_vpk'', Mkdir ''./static'',
      CallDownloadSpecificFiles a d m (''csgo/pak01_dir'' @ [CHR 0x5C] @ ''.vpk'')
        ''./temp_vpk'' (Inr succeeded)]"
  "tempVpkDir (StreamingVPKProcessor out fs) = ''./temp_vpk''"
  "outputDir (StreamingVPKProcessor out fs) = out"
  "vpkFolders (StreamingVPKProcessor out fs) = fs"
  "results (StreamingVPKProcessor out fs) =
     \<lparr> downloaded = 0, extracted = 0, failed = 0, errors = [] \<rparr>"
  by (simp_all add: succeeded_def exited1_def refused_def start_def sim_prepared_def
      sim_fetched_def StreamingVPKProcessor_def)

lemma archivePattern_examples:
  "archivePattern 3 = ''csgo/pak01_003'' @ [CHR 0x5C] @ ''.vpk''"
  "archivePattern 12 = ''csgo/pak01_012'' @ [CHR 0x5C] @ ''.vpk''"
  by code_simp+

lemma sim_plan_fresh:
  "getRequiredVPKArchives (StreamingVPKProcessor out [''a/'', ''b/'']) example_dir = [3, 12]"
  by (simp add: getRequiredVPKArchives_def StreamingVPKProcessor_def example_dir_def set_add_def)

lemma sim_plan:
  "getRequiredVPKArchives (proc (sim_fetched a d m [''a/'', ''b/''])) example_dir = [3, 12]"
  by (simp add: fixture_simps sim_plan_fresh)

lemma sim_body:
  "processBody (sim_env b ff rf uw) a d m (sim_prepared [''a/'', ''b/'']) =
     bindE (downloadRequiredArchives (sim_env b ff rf uw) a d m [3, 12])
       (\<lambda>_. bindE (extractWithSource2Viewer (sim_env b ff rf uw) ''./temp_vpk/pak01_dir.vpk'')
               (aggregate (sim_env b ff rf uw) [3, 12])) (sim_fetched a d m [''a/'', ''b/''])"
proof -
  have "processBody (sim_env b ff rf uw) a d m (sim_prepared [''a/'', ''b/'']) =
     bindE (downloadRequiredArchives (sim_env b ff rf uw) a d m
              (getRequiredVPKArchives (proc (sim_fetched a d m [''a/'', ''b/''])) example_dir))
       (\<lambda>_. bindE (extractWithSource2Viewer (sim_env b ff rf uw) ''./temp_vpk/pak01_dir.vpk'')
               (aggregate (sim_env b ff rf uw)
                  (getRequiredVPKArchives (proc (sim_fetched a d m [''a/'', ''b/''])) example_dir)))
       (sim_fetched a d m [''a/'', ''b/''])"
    by (rule processBody_planned [OF sim_fetch]) (simp add: sim_plan)
  then show ?thesis by (simp add: sim_plan)
qed

lemma sim_batch:
  "depotDownloader_downloadMultipleFiles (sim_env b ff rf uw) a d m (map archivePattern [3, 12])
     (tempVpkDir (proc (sim_fetched a d m fs))) (world (sim_fetched a d m fs)) =
   (Inr b, world (sim_fetched a d m fs))"
  by simp

lemma sim_download:
  "downloadRequiredArchives (sim_env b ff rf uw) a d m [3, 12] (sim_fetched a d m fs) =
     (if success b then Inr ()
      else Inl (Error (''Failed to batch download VPK archives: '' @ template (error b))),
      sim_downloaded b a d m fs)"
proof -
  have "downloadRequiredArchives (sim_env b ff rf uw) a d m [3, 12] (sim_fetched a d m fs) =
     ((case Inr b of
         Inl e \<Rightarrow> Inl e
       | Inr r \<Rightarrow>
           if \<not> success r then
             Inl (Error (''Failed to batch download VPK archives: '' @ template (error r)))
           else Inr ()),
      (sim_fetched a d m fs)\<lparr> world := world (sim_fetched a d m fs),
         trace := trace (sim_fetched a d m fs) @
           [CallDownloadMultipleFiles a d m (map archivePattern [3, 12])
              (tempVpkDir (proc (sim_fetched a d m fs))) (Inr b)] \<rparr>)"
    by (rule downloadRequiredArchives_unfold [OF sim_batch])
  then show ?thesis
    by (simp add: sim_downloaded_def sim_fetched_def StreamingVPKProcessor_def)
qed

lemma sim_extract:
  "extractWithSource2Viewer (sim_env b ff rf uw) p (sim_downloaded b a d m [''a/'', ''b/'']) =
     (let ra = (if ff ''a/'' then exited1 else succeeded);
          rb = (if ff ''b/'' then exited1 else succeeded);
          n = length (filter success [ra, rb])
      in (Inr \<lparr> success = 0 < n,
                 error = (if n = 0 then Some ''No folders could be extracted'' else None),
                 outputText = None, details = [ra, rb] \<rparr>,
          (sim_downloaded b a d m [''a/'', ''b/''])
            \<lparr> trace := trace (sim_downloaded b a d m [''a/'', ''b/'']) @
                [extractEvent p ''./static'' ''a/'' (Inr ra),
                 extractEvent p ''./static'' ''b/'' (Inr rb)] \<rparr>))"
  by (simp add: extractWithSource2Viewer_def call_extractVPKFolder_def perform_def bindE_def
      returnE_def extractEvent_def sim_downloaded_def sim_fetched_def StreamingVPKProcessor_def
      Let_def)

lemma sim_run_extracting:
  "success b \<Longrightarrow>
   fst (processVPKFiles (sim_env b ff rf []) a d m (start [''a/'', ''b/''])) =
     (if ff ''a/'' \<and> ff ''b/''
      then Inr \<lparr> downloaded = 0, extracted = 0, failed = 1, errors = [] \<rparr>
      else Inr \<lparr> downloaded = 2, extracted = 2, failed = 0, errors = [] \<rparr>)"
  by (simp add: processVPKFiles_entered [OF sim_prepare] sim_body bindE_def sim_download
      sim_extract Let_def aggregate_def findExtractedImages_def succeeded_def exited1_def)
    (simp add: sim_downloaded_def sim_fetched_def StreamingVPKProcessor_def)

lemma sim_run_refused:
  "processVPKFiles (sim_env (refused msg) ff rf []) a d m (start [''a/'', ''b/'']) =
     (Inl (Error (''Failed to batch download VPK archives: '' @ msg)),
      cleanup (sim_env (refused msg) ff rf []) (sim_downloaded (refused msg) a d m [''a/'', ''b/'']))"
  by (simp add: processVPKFiles_entered [OF sim_prepare] sim_body bindE_def sim_download
      refused_def template_def)

theorem single_batched_fetch_witness:
  "prepareDirectories (sim_env (refused ''Max attempts exceeded'') (\<lambda>f. False) False [])
     (start [''a/'', ''b/'']) = (Inr (), sim_prepared [''a/'', ''b/''])
   \<and> getRequiredVPKArchives (proc (sim_fetched 730 2347770 ''77'' [''a/'', ''b/''])) example_dir = [3, 12]
   \<and> filter isDownloadCall
        (trace (snd (processVPKFiles (sim_env (refused ''Max attempts exceeded'') (\<lambda>f. False) False [])
                       730 2347770 ''77'' (start [''a/'', ''b/'']))))
      = [CallDownloadSpecificFiles 730 2347770 ''77'' (''csgo/pak01_dir'' @ [CHR 0x5C] @ ''.vpk'')
           ''./temp_vpk'' (Inr succeeded),
         CallDownloadMultipleFiles 730 2347770 ''77''
           [''csgo/pak01_003'' @ [CHR 0x5C] @ ''.vpk'', ''csgo/pak01_012'' @ [CHR 0x5C] @ ''.vpk'']
           ''./temp_vpk'' (Inr (refused ''Max attempts exceeded''))]
   \<and> fst (processVPKFiles (sim_env (refused ''Max attempts exceeded'') (\<lambda>f. False) False [])
            730 2347770 ''77'' (start [''a/'', ''b/''])) =
       Inl (Error ''Failed to batch download VPK archives: Max attempts exceeded'')
   \<and> filter isExtractCall
        (trace (snd (processVPKFiles (sim_env (refused ''Max attempts exceeded'') (\<lambda>f. False) False [])
                       730 2347770 ''77'' (start [''a/'', ''b/''])))) = []"
proof -
  have nonempty: "[3, 12] \<noteq> ([] :: nat list)" by simp
  from single_batched_fetch [OF sim_prepare sim_fetch sim_plan nonempty sim_batch,
      of "refused ''Max attempts exceeded''" "\<lambda>f. False" False 730 2347770 "''77''"]
  show ?thesis
    by (simp add: sim_prepare sim_plan sim_plan_fresh archivePattern_examples template_def fixture_simps)
qed

theorem partial_failure_tolerated_witness:
  "(\<forall>p out opts w. \<exists>r w'.
      source2Viewer_extractVPKFolder (sim_env succeeded (\<lambda>f. f = ''b/'') False []) p out opts w = (Inr r, w'))
   \<and> (\<exists>r s'. extractWithSource2Viewer (sim_env succeeded (\<lambda>f. f = ''b/'') False [])
                ''./temp_vpk/pak01_dir.vpk'' (sim_downloaded succeeded 730 2347770 ''77'' [''a/'', ''b/''])
              = (Inr r, s')
        \<and> details r = [succeeded, exited1] \<and> success r
        \<and> length (filter success (details r)) = 1
        \<and> proc s' = proc (sim_downloaded succeeded 730 2347770 ''77'' [''a/'', ''b/'']))"
proof -
  have returns: "\<exists>r w'.
      source2Viewer_extractVPKFolder (sim_env succeeded (\<lambda>f. f = ''b/'') False []) p out opts w = (Inr r, w')"
    for p out opts w
    by simp
  from partial_failure_tolerated [OF returns, of "''./temp_vpk/pak01_dir.vpk''"
      "sim_downloaded succeeded 730 2347770 ''77'' [''a/'', ''b/'']"]
  obtain r s' where
    r: "extractWithSource2Viewer (sim_env succeeded (\<lambda>f. f = ''b/'') False [])
          ''./temp_vpk/pak01_dir.vpk'' (sim_downloaded succeeded 730 2347770 ''77'' [''a/'', ''b/''])
        = (Inr r, s')"
    and p: "proc s' = proc (sim_downloaded succeeded 730 2347770 ''77'' [''a/'', ''b/''])"
    by blast
  from r have "details r = [succeeded, exited1]" "success r"
    "length (filter success (details r)) = 1"
    by (auto simp: sim_extract Let_def fixture_simps)
  with r p returns show ?thesis by blast
qed

text \<open>
  Against claim C5 as stated: two selectors, the decompiler fails for the second one only.
  The extraction result holds one successful and one failed outcome, and the Run Result
  that \<^verbatim>\<open>processVPKFiles\<close> returns has \<^verbatim>\<open>failed = 0\<close> and an empty error list: it
  shows neither the successful outcome nor a failure entry naming the failed selector.
\<close>

theorem partial_failure_not_in_run_result:
  "fst (extractWithSource2Viewer (sim_env succeeded (\<lambda>f. f = ''b/'') False [])
          ''./temp_vpk/pak01_dir.vpk'' (sim_downloaded succeeded 730 2347770 ''77'' [''a/'', ''b/'']))
     = Inr \<lparr> success = True, error = None, outputText = None, details = [succeeded, exited1] \<rparr>
   \<and> fst (processVPKFiles (sim_env succeeded (\<lambda>f. f = ''b/'') False []) 730 2347770 ''77''
            (start [''a/'', ''b/'']))
     = Inr \<lparr> downloaded = 2, extracted = 2, failed = 0, errors = [] \<rparr>"
proof -
  have ok: "success succeeded" by (simp add: succeeded_def)
  show ?thesis
    by (simp add: sim_extract sim_run_extracting [OF ok] Let_def fixture_simps)
qed

theorem all_selectors_fail_witness:
  "prepareDirectories (sim_env succeeded (\<lambda>f. True) False []) (start [''a/'', ''b/'']) =
     (Inr (), sim_prepared [''a/'', ''b/''])
   \<and> downloadRequiredArchives (sim_env succeeded (\<lambda>f. True) False []) 730 2347770 ''77''
        [3, 12] (sim_fetched 730 2347770 ''77'' [''a/'', ''b/'']) =
      (Inr (), sim_downloaded succeeded 730 2347770 ''77'' [''a/'', ''b/''])
   \<and> (\<exists>r s4. extractWithSource2Viewer (sim_env succeeded (\<lambda>f. True) False [])
                ''./temp_vpk/pak01_dir.vpk'' (sim_downloaded succeeded 730 2347770 ''77'' [''a/'', ''b/''])
               = (Inr r, s4)
        \<and> \<not> success r \<and> error r = Some ''No folders could be extracted''
        \<and> length (details r) = 2)
   \<and> fst (processVPKFiles (sim_env succeeded (\<lambda>f. True) False []) 730 2347770 ''77''
            (start [''a/'', ''b/'']))
     = Inr \<lparr> downloaded = 0, extracted = 0, failed = 1, errors = [] \<rparr>"
proof -
  let ?E = "sim_env succeeded (\<lambda>f. True) False []"
  have fresh: "proc (start [''a/'', ''b/'']) = StreamingVPKProcessor ''./static'' [''a/'', ''b/'']"
    by (simp add: start_def)
  have nonempty: "[3, 12] \<noteq> ([] :: nat list)" by simp
  have dl: "downloadRequiredArchives ?E 730 2347770 ''77''
        [3, 12] (sim_fetched 730 2347770 ''77'' [''a/'', ''b/'']) =
      (Inr (), sim_downloaded succeeded 730 2347770 ''77'' [''a/'', ''b/''])"
    by (simp add: sim_download fixture_simps)
  have fails: "\<exists>r w'. source2Viewer_extractVPKFolder (sim_env succeeded (\<lambda>f. True) False []) p out opts w = (Inr r, w') \<and> \<not> success r"
    for p out opts w
    by (simp add: fixture_simps)
  from all_selectors_fail [OF fresh sim_prepare sim_fetch sim_plan nonempty dl fails]
  show ?thesis
    using sim_prepare dl by (auto simp: fixture_simps)
qed

text \<open>
  Against claim C6 as stated: two selectors, the decompiler fails for both. The run
  returns normally, and its Run Result has \<^verbatim>\<open>failed = 1\<close> and an empty error list, not two
  failure entries.
\<close>

theorem all_selectors_fail_counterexample:
  "fst (extractWithSource2Viewer (sim_env succeeded (\<lambda>f. True) False [])
          ''./temp_vpk/pak01_dir.vpk'' (sim_downloaded succeeded 730 2347770 ''77'' [''a/'', ''b/'']))
     = Inr \<lparr> success = False, error = Some ''No folders could be extracted'',
             outputText = None, details = [exited1, exited1] \<rparr>
   \<and> fst (processVPKFiles (sim_env succeeded (\<lambda>f. True) False []) 730 2347770 ''77''
            (start [''a/'', ''b/'']))
     = Inr \<lparr> downloaded = 0, extracted = 0, failed = 1, errors = [] \<rparr>"
proof -
  have ok: "success succeeded" by (simp add: fixture_simps)
  show ?thesis
    by (simp add: sim_extract sim_run_extracting [OF ok] Let_def fixture_simps)
qed

theorem batch_failure_is_fatal_witness:
  "prepareDirectories (sim_env (refused ''No space left on device'') (\<lambda>f. False) False [])
     (start [''a/'', ''b/'']) = (Inr (), sim_prepared [''a/'', ''b/''])
   \<and> fst (processVPKFiles (sim_env (refused ''No space left on device'') (\<lambda>f. False) False [])
            730 2347770 ''77'' (start [''a/'', ''b/''])) =
       Inl (Error ''Failed to batch download VPK archives: No space left on device'')
   \<and> filter isExtractCall
        (trace (snd (processVPKFiles
                       (sim_env (refused ''No space left on device'') (\<lambda>f. False) False [])
                       730 2347770 ''77'' (start [''a/'', ''b/''])))) = []"
proof -
  let ?E = "sim_env (refused ''No space left on device'') (\<lambda>f. False) False []"
  have nonempty: "[3, 12] \<noteq> ([] :: nat list)" by simp
  have response: "depotDownloader_downloadMultipleFiles ?E 730 2347770 ''77''
      (map archivePattern [3, 12]) (tempVpkDir (proc (sim_fetched 730 2347770 ''77'' [''a/'', ''b/'']))) 
      (world (sim_fetched 730 2347770 ''77'' [''a/'', ''b/''])) =
    (Inr \<lparr> success = False, error = Some ''No space left on device'', outputText = None \<rparr>,
     world (sim_fetched 730 2347770 ''77'' [''a/'', ''b/'']))"
    by (simp add: refused_def)
  note fatal = batch_failure_is_fatal [OF sim_prepare sim_fetch sim_plan nonempty response]
  from fatal have "fst (processVPKFiles ?E 730 2347770 ''77'' (start [''a/'', ''b/''])) =
       Inl (Error ''Failed to batch download VPK archives: No space left on device'')"
    by simp
  moreover from fatal have "filter isExtractCall
        (trace (snd (processVPKFiles ?E 730 2347770 ''77'' (start [''a/'', ''b/''])))) =
      filter isExtractCall (trace (start [''a/'', ''b/'']))"
    by blast
  ultimately show ?thesis
    by (simp add: sim_prepare fixture_simps)
qed

text \<open>
  Against claim C7 as stated: with the batched fetch answering
  \<^verbatim>\<open>{success: false, error: "No space left on device"}\<close> the run throws the same generic
  batch-download error as for any other message, with the text copied into it; the test
  for disk exhaustion and the error it raises exist only in \<^verbatim>\<open>src/vpkExtractor.js\<close>.
\<close>

theorem batch_failure_not_classified:
  "isDiskSpaceError ''No space left on device''
   \<and> \<not> isDiskSpaceError ''Max attempts exceeded''
   \<and> fst (processVPKFiles (sim_env (refused ''No space left on device'') (\<lambda>f. False) False [])
            730 2347770 ''77'' (start [''a/'', ''b/''])) =
       Inl (Error ''Failed to batch download VPK archives: No space left on device'')
   \<and> fst (processVPKFiles (sim_env (refused ''Max attempts exceeded'') (\<lambda>f. False) False [])
            730 2347770 ''77'' (start [''a/'', ''b/''])) =
       Inl (Error ''Failed to batch download VPK archives: Max attempts exceeded'')
   \<and> Error ''Failed to batch download VPK archives: No space left on device'' \<noteq>
       diskSpaceExhausted ''csgo/pak01_003.vpk''"
  by (simp add: sim_run_refused isDiskSpaceError_def diskSpaceExhausted_def)

section \<open>Clean-up\<close>

lemma aggregate_config:
  "aggregate env plan r s = (x, s') \<Longrightarrow> tempVpkDir (proc s') = tempVpkDir (proc s)"
  by (auto simp: aggregate_def Let_def split: if_splits sum.splits)

lemma processBody_config:
  "processBody env a d m s = (r, s') \<Longrightarrow> tempVpkDir (proc s') = tempVpkDir (proc s)"
proof -
  assume run: "processBody env a d m s = (r, s')"
  obtain x s2 where f: "fetchDirectory env a d m s = (x, s2)"
    by (cases "fetchDirectory env a d m s")
  note p2 = fetchDirectory_proc [OF f]
  show ?thesis
  proof (cases x)
    case (Inl e)
    with run f p2 show ?thesis by (simp add: processBody_def bindE_def)
  next
    case (Inr pv)
    obtain vpkDirPath vd where pv: "pv = (vpkDirPath, vd)" by (cases pv)
    let ?plan = "getRequiredVPKArchives (proc s2) vd"
    show ?thesis
    proof (cases "?plan = []")
      case True
      with run f Inr pv p2 show ?thesis
        by (simp add: processBody_def bindE_def returnE_def)
    next
      case False
      obtain y s3 where dl: "downloadRequiredArchives env a d m ?plan s2 = (y, s3)"
        by (cases "downloadRequiredArchives env a d m ?plan s2")
      note p3 = downloadRequiredArchives_proc [OF dl]
      obtain z s4 where ex: "extractWithSource2Viewer env vpkDirPath s3 = (z, s4)"
        by (cases "extractWithSource2Viewer env vpkDirPath s3")
      note p4 = extractWithSource2Viewer_calls [OF ex]
      from run f Inr pv False dl ex p2 p3 p4 show ?thesis
        by (auto simp: processBody_def bindE_def Let_def split: sum.splits
            dest: aggregate_config)
    qed
  qed
qed

text \<open>
  Claim C9 (amended). Once the two directories are prepared and the \<^verbatim>\<open>try\<close> block is
  entered, every exit of \<^verbatim>\<open>processVPKFiles\<close> (normal return, early return with an empty
  plan, thrown error) goes through \<^verbatim>\<open>cleanup\<close> as its last action: when
  \<^verbatim>\<open>temp_vpk\<close> exists it issues one recursive \<^verbatim>\<open>rmSync\<close> on it, whose failure is caught;
  so on a file system where a successful \<^verbatim>\<open>rmSync\<close> removes the path, the directory is
  gone after the run unless that \<^verbatim>\<open>rmSync\<close> itself threw.
\<close>

theorem cleanup_after_try:
  assumes prepared: "prepareDirectories env s = (Inr (), s1)"
  shows "\<exists>r s2. processBody env appId depotId manifestId s1 = (r, s2)
    \<and> processVPKFiles env appId depotId manifestId s = (r, cleanup env s2)
    \<and> tempVpkDir (proc s2) = tempVpkDir (proc s)
    \<and> (if existsSync env (tempVpkDir (proc s)) (world s2)
        then trace (cleanup env s2) = trace s2 @ [Rm (tempVpkDir (proc s))]
           \<and> world (cleanup env s2) = snd (rmSync env (tempVpkDir (proc s)) (world s2))
        else cleanup env s2 = s2)
    \<and> ((\<forall>p w w'. rmSync env p w = (Inr (), w') \<longrightarrow> \<not> existsSync env p w') \<longrightarrow>
         \<not> existsSync env (tempVpkDir (proc s)) (world (cleanup env s2))
         \<or> (\<exists>e. fst (rmSync env (tempVpkDir (proc s)) (world s2)) = Inl e))"
proof -
  obtain r s2 where body: "processBody env appId depotId manifestId s1 = (r, s2)"
    by (cases "processBody env appId depotId manifestId s1")
  have run: "processVPKFiles env appId depotId manifestId s = (r, cleanup env s2)"
    using processVPKFiles_entered [OF prepared] body by simp
  have tmp: "tempVpkDir (proc s2) = tempVpkDir (proc s)"
    using processBody_config [OF body] prepareDirectories_proc [OF prepared] by simp
  have shape: "if existsSync env (tempVpkDir (proc s)) (world s2)
        then trace (cleanup env s2) = trace s2 @ [Rm (tempVpkDir (proc s))]
           \<and> world (cleanup env s2) = snd (rmSync env (tempVpkDir (proc s)) (world s2))
        else cleanup env s2 = s2"
    by (simp add: cleanup_def perform_def tmp split: prod.splits)
  have gone: "\<not> existsSync env (tempVpkDir (proc s)) (world (cleanup env s2))
         \<or> (\<exists>e. fst (rmSync env (tempVpkDir (proc s)) (world s2)) = Inl e)"
    if law: "\<forall>p w w'. rmSync env p w = (Inr (), w') \<longrightarrow> \<not> existsSync env p w'"
  proof (cases "existsSync env (tempVpkDir (proc s)) (world s2)")
    case False
    with shape show ?thesis by simp
  next
    case True
    obtain x w' where rm: "rmSync env (tempVpkDir (proc s)) (world s2) = (x, w')"
      by (cases "rmSync env (tempVpkDir (proc s)) (world s2)")
    show ?thesis
    proof (cases x)
      case (Inl e)
      with rm show ?thesis by simp
    next
      case (Inr u)
      with rm law have "\<not> existsSync env (tempVpkDir (proc s)) w'" by auto
      with True shape rm show ?thesis by simp
    qed
  qed
  from body run tmp shape gone show ?thesis by blast
qed

lemma sim_no_plan:
  "getRequiredVPKArchives (proc (sim_fetched a d m [''c/''])) example_dir = []"
  by (rule no_match_no_plan) (simp add: fixture_simps example_dir_def)

lemma sim_body_nothing:
  "processBody (sim_env b ff rf uw) a d m (sim_prepared [''c/'']) =
     (Inr \<lparr> downloaded = 0, extracted = 0, failed = 0, errors = [] \<rparr>, sim_fetched a d m [''c/''])"
  using processBody_empty_plan [OF sim_fetch sim_no_plan] by (simp add: fixture_simps)

theorem cleanup_after_try_witness:
  "prepareDirectories (sim_env succeeded (\<lambda>f. False) False []) (start [''c/'']) =
     (Inr (), sim_prepared [''c/''])
   \<and> (\<exists>r s2. processBody (sim_env succeeded (\<lambda>f. False) False []) 730 2347770 ''77''
                (sim_prepared [''c/'']) = (r, s2)
        \<and> processVPKFiles (sim_env succeeded (\<lambda>f. False) False []) 730 2347770 ''77''
            (start [''c/'']) = (r, cleanup (sim_env succeeded (\<lambda>f. False) False []) s2)
        \<and> trace (cleanup (sim_env succeeded (\<lambda>f. False) False []) s2) =
            trace s2 @ [Rm ''./temp_vpk'']
        \<and> \<not> existsSync (sim_env succeeded (\<lambda>f. False) False []) ''./temp_vpk''
              (world (cleanup (sim_env succeeded (\<lambda>f. False) False []) s2)))"
proof -
  let ?E = "sim_env succeeded (\<lambda>f. False) False []"
  have "\<exists>r s2. processBody ?E 730 2347770 ''77'' (sim_prepared [''c/'']) = (r, s2)
    \<and> processVPKFiles ?E 730 2347770 ''77'' (start [''c/'']) = (r, cleanup ?E s2)
    \<and> tempVpkDir (proc s2) = tempVpkDir (proc (start [''c/'']))
    \<and> (if existsSync ?E (tempVpkDir (proc (start [''c/'']))) (world s2)
        then trace (cleanup ?E s2) = trace s2 @ [Rm (tempVpkDir (proc (start [''c/''])))]
           \<and> world (cleanup ?E s2) = snd (rmSync ?E (tempVpkDir (proc (start [''c/'']))) (world s2))
        else cleanup ?E s2 = s2)
    \<and> ((\<forall>p w w'. rmSync ?E p w = (Inr (), w') \<longrightarrow> \<not> existsSync ?E p w') \<longrightarrow>
         \<not> existsSync ?E (tempVpkDir (proc (start [''c/'']))) (world (cleanup ?E s2))
         \<or> (\<exists>e. fst (rmSync ?E (tempVpkDir (proc (start [''c/'']))) (world s2)) = Inl e))"
    by (rule cleanup_after_try [OF sim_prepare])
  then obtain r s2 where
    body: "processBody ?E 730 2347770 ''77'' (sim_prepared [''c/'']) = (r, s2)"
    and run: "processVPKFiles ?E 730 2347770 ''77'' (start [''c/'']) = (r, cleanup ?E s2)"
    and shape: "if existsSync ?E (tempVpkDir (proc (start [''c/'']))) (world s2)
        then trace (cleanup ?E s2) = trace s2 @ [Rm (tempVpkDir (proc (start [''c/''])))]
           \<and> world (cleanup ?E s2) = snd (rmSync ?E (tempVpkDir (proc (start [''c/'']))) (world s2))
        else cleanup ?E s2 = s2"
    and gone: "(\<forall>p w w'. rmSync ?E p w = (Inr (), w') \<longrightarrow> \<not> existsSync ?E p w') \<longrightarrow>
         \<not> existsSync ?E (tempVpkDir (proc (start [''c/'']))) (world (cleanup ?E s2))
         \<or> (\<exists>e. fst (rmSync ?E (tempVpkDir (proc (start [''c/'']))) (world s2)) = Inl e)"
    by blast
  from body have s2: "s2 = sim_fetched 730 2347770 ''77'' [''c/'']"
    by (simp add: sim_body_nothing)
  have law: "\<forall>p w w'. rmSync ?E p w = (Inr (), w') \<longrightarrow> \<not> existsSync ?E p w'"
    by auto
  from gone law have "\<not> existsSync ?E ''./temp_vpk'' (world (cleanup ?E s2))"
    by (simp add: fixture_simps)
  moreover from shape have "trace (cleanup ?E s2) = trace s2 @ [Rm ''./temp_vpk'']"
    by (simp add: s2 fixture_simps)
  ultimately show ?thesis
    using body run sim_prepare by blast
qed

text \<open>
  Against claim C9 as stated: when \<^verbatim>\<open>rmSync\<close> throws, \<^verbatim>\<open>cleanup\<close> swallows the error and
  the run returns normally with \<^verbatim>\<open>temp_vpk\<close> still present; and when creating the output
  directory throws, before the \<^verbatim>\<open>try\<close> block, the error propagates with \<^verbatim>\<open>temp_vpk\<close>
  created and no clean-up at all.
\<close>

theorem cleanup_can_leave_directory:
  "fst (processVPKFiles (sim_env succeeded (\<lambda>f. False) True []) 730 2347770 ''77''
          (start [''c/''])) =
     Inr \<lparr> downloaded = 0, extracted = 0, failed = 0, errors = [] \<rparr>
   \<and> existsSync (sim_env succeeded (\<lambda>f. False) True []) ''./temp_vpk''
       (world (snd (processVPKFiles (sim_env succeeded (\<lambda>f. False) True []) 730 2347770 ''77''
                      (start [''c/'']))))
   \<and> processVPKFiles (sim_env succeeded (\<lambda>f. False) False [''./static'']) 730 2347770 ''77''
       (start [''c/'']) =
     (Inl (Error ''EACCES''),
      (start [''c/''])\<lparr> world := [''./temp_vpk''],
                         trace := [Mkdir ''./temp_vpk'', Mkdir ''./static''] \<rparr>)"
proof -
  let ?E = "sim_env succeeded (\<lambda>f. False) True []"
  let ?F = "sim_env succeeded (\<lambda>f. False) False [''./static'']"
  have run: "processVPKFiles ?E 730 2347770 ''77'' (start [''c/'']) =
      (Inr \<lparr> downloaded = 0, extracted = 0, failed = 0, errors = [] \<rparr>,
       cleanup ?E (sim_fetched 730 2347770 ''77'' [''c/'']))"
    by (simp add: processVPKFiles_entered [OF sim_prepare] sim_body_nothing)
  have left: "existsSync ?E ''./temp_vpk'' (world (cleanup ?E (sim_fetched 730 2347770 ''77'' [''c/''])))"
    by (simp add: cleanup_def perform_def fixture_simps)
  have refused: "prepareDirectories ?F (start [''c/'']) =
     (Inl (Error ''EACCES''),
      (start [''c/''])\<lparr> world := [''./temp_vpk''],
                         trace := [Mkdir ''./temp_vpk'', Mkdir ''./static''] \<rparr>)"
    by (simp add: prepareDirectories_def ensureDirectory_def bindE_def perform_def fixture_simps)
  show ?thesis
    using run left processVPKFiles_not_entered [OF refused] by simp
qed

section \<open>Retries of the depot downloader\<close>

lemma runCommand_trace:
  "runCommand env c t s = (r, s1) \<Longrightarrow> trace s1 = trace s @ [Spawn c t r]"
  by (auto simp: runCommand_def perform_def split: prod.splits)

lemma runCommand_output: "runCommand env c t s = (r, s1) \<Longrightarrow> outputText r \<noteq> None"
  by (auto simp: runCommand_def perform_def commandResult_def split: prod.splits processOutcome.splits)

lemma wait_trace: "trace (wait env ms s) = trace s @ [Wait ms]"
  by (simp add: wait_def)

lemma attempts_events:
  "attempts env c M a s = (res, s') \<Longrightarrow>
   \<exists>rs. length rs \<le> Suc M - a
      \<and> trace s' = trace s @ attemptEvents c a rs
      \<and> list_all (\<lambda>r. \<not> success r) (butlast rs)
      \<and> (if success res
          then rs \<noteq> [] \<and> success (last rs) \<and> error res = None
             \<and> outputText res = outputText (last rs)
          else length rs = Suc M - a \<and> list_all (\<lambda>r. \<not> success r) rs
             \<and> error res = Some ''Max attempts exceeded'')"
proof (induction env c M a s arbitrary: res s' rule: attempts.induct)
  case (1 env c M a s)
  show ?case
  proof (cases "a \<le> M")
    case False
    with "1.prems" have "res = \<lparr> success = False, error = Some ''Max attempts exceeded'', outputText = None \<rparr>"
      "s' = s"
      by (simp_all add: attempts.simps [of env c M a s])
    with False show ?thesis by (intro exI [of _ "[]"]) simp
  next
    case True
    obtain r s1 where run: "runCommand env c (30 * 60 * 1000) s = (r, s1)"
      by (cases "runCommand env c (30 * 60 * 1000) s")
    note tr1 = runCommand_trace [OF run]
    show ?thesis
    proof (cases "success r")
      case yes: True
      with True run "1.prems" have
        "res = \<lparr> success = True, error = None, outputText = outputText r \<rparr>" "s' = s1"
        by (simp_all add: attempts.simps [of env c M a s])
      with True yes tr1 show ?thesis
        by (intro exI [of _ "[r]"]) simp
    next
      case no: False
      let ?s2 = "if a < M then wait env (backoffTime a) s1 else s1"
      from True run no "1.prems" have rest: "attempts env c M (Suc a) ?s2 = (res, s')"
        by (simp add: attempts.simps [of env c M a s])
      from "1.IH" [OF True refl run [symmetric] no rest] obtain rs where
        len: "length rs \<le> Suc M - Suc a"
        and tr: "trace s' = trace ?s2 @ attemptEvents c (Suc a) rs"
        and early: "list_all (\<lambda>r. \<not> success r) (butlast rs)"
        and fin: "if success res
          then rs \<noteq> [] \<and> success (last rs) \<and> error res = None
             \<and> outputText res = outputText (last rs)
          else length rs = Suc M - Suc a \<and> list_all (\<lambda>r. \<not> success r) rs
             \<and> error res = Some ''Max attempts exceeded''"
        by blast
      show ?thesis
      proof (cases "a < M")
        case last: False
        with True have "a = M" by simp
        with len have "rs = []" by simp
        with fin have "\<not> success res" "error res = Some ''Max attempts exceeded''"
          by (auto split: if_splits)
        with \<open>rs = []\<close> \<open>a = M\<close> tr tr1 no last show ?thesis
          by (intro exI [of _ "[r]"]) simp
      next
        case more: True
        have "rs \<noteq> []"
        proof (cases "success res")
          case True
          with fin show ?thesis by simp
        next
          case False
          with fin more show ?thesis by auto
        qed
        then obtain r' rs' where rs: "rs = r' # rs'" by (cases rs) auto
        have l: "last (r # rs) = last rs" using \<open>rs \<noteq> []\<close> by simp
        have "length (r # rs) \<le> Suc M - a" using len more by simp
        moreover have "trace s' = trace s @ attemptEvents c a (r # rs)"
          using tr tr1 more by (simp add: rs wait_trace)
        moreover have "list_all (\<lambda>r. \<not> success r) (butlast (r # rs))"
          using early no by (simp add: rs)
        moreover have "if success res
          then r # rs \<noteq> [] \<and> success (last (r # rs)) \<and> error res = None
             \<and> outputText res = outputText (last (r # rs))
          else length (r # rs) = Suc M - a \<and> list_all (\<lambda>r. \<not> success r) (r # rs)
             \<and> error res = Some ''Max attempts exceeded''"
        proof (cases "success res")
          case True
          with fin have "success (last rs)" "error res = None"
            "outputText res = outputText (last rs)"
            by simp_all
          with True show ?thesis by (simp only: l) simp
        next
          case False
          with fin have "length rs = Suc M - Suc a" "list_all (\<lambda>r. \<not> success r) rs"
            "error res = Some ''Max attempts exceeded''"
            by simp_all
          with False no more show ?thesis by simp
        qed
        ultimately show ?thesis by blast
      qed
    qed
  qed
qed

lemma attempts_output:
  "attempts env c M a s = (res, s') \<Longrightarrow> success res \<Longrightarrow> outputText res \<noteq> None"
proof (induction env c M a s arbitrary: res s' rule: attempts.induct)
  case (1 env c M a s)
  show ?case
  proof (cases "a \<le> M")
    case False
    with "1.prems" show ?thesis by (auto simp: attempts.simps [of env c M a s])
  next
    case True
    obtain r s1 where run: "runCommand env c (30 * 60 * 1000) s = (r, s1)"
      by (cases "runCommand env c (30 * 60 * 1000) s")
    show ?thesis
    proof (cases "success r")
      case yes: True
      with True run "1.prems" have "outputText res = outputText r"
        by (auto simp: attempts.simps [of env c M a s])
      with runCommand_output [OF run] show ?thesis by simp
    next
      case no: False
      let ?s2 = "if a < M then wait env (backoffTime a) s1 else s1"
      from True run no "1.prems" have rest: "attempts env c M (Suc a) ?s2 = (res, s')"
        by (simp add: attempts.simps [of env c M a s])
      from "1.IH" [OF True refl run [symmetric] no rest "1.prems"(2)] show ?thesis .
    qed
  qed
qed




lemma runDepotDownloader_outcome:
  assumes "runDepotDownloader env this args maxAttempts s = (res, s')"
  shows "if success res then error res = None \<and> outputText res \<noteq> None
         else error res = Some ''Max attempts exceeded''"
  using attempts_events [OF assms [unfolded runDepotDownloader_def]]
    attempts_output [OF assms [unfolded runDepotDownloader_def]]
  by (auto split: if_splits)









section \<open>Manifest identifiers are digit strings\<close>

lemma firstSome_Some: "firstSome f xs = Some y \<Longrightarrow> \<exists>x\<in>set xs. f x = Some y"
  by (induction xs) (auto split: option.splits)

lemma inClass_Digit: "inClass Digit = isDigit"
  by (rule ext) simp

lemma take_digits:
  assumes "n \<in> set (candidates (Plus Digit) t)"
  shows "digitString (take n t)"
proof -
  let ?k = "length (takeWhile isDigit t)"
  from assms have n: "1 \<le> n" "n \<le> ?k" by (auto simp: inClass_Digit)
  have "take n t = take n (takeWhile isDigit t)"
    using n by (metis takeWhile_dropWhile_id take_append append_take_drop_id diff_is_0_eq take_0 append_Nil2)
  moreover have "list_all isDigit (take n (takeWhile isDigit t))"
    by (auto simp: list_all_iff dest!: in_set_takeD set_takeWhileD)
  moreover have "take n t \<noteq> []"
    using n by (auto simp: take_eq_Nil)
  ultimately show ?thesis by (simp add: digitString_def)
qed

lemma matchHere_digits:
  "matchHere ps t captures = Some result \<Longrightarrow> list_all digitGroup ps \<Longrightarrow>
   list_all digitString captures \<Longrightarrow> list_all digitString result"
proof (induction ps t captures rule: matchHere.induct)
  case (1 t captures)
  then show ?case by simp
next
  case (2 a ps t captures)
  from "2.prems"(1) obtain n where "n \<in> set (candidates a t)"
    "matchHere ps (drop n t) captures = Some result"
    by (auto dest: firstSome_Some)
  with "2.IH" "2.prems" show ?case by simp
next
  case (3 a ps t captures)
  from "3.prems"(1) obtain n where n: "n \<in> set (candidates a t)"
    "matchHere ps (drop n t) (captures @ [take n t]) = Some result"
    by (auto dest: firstSome_Some)
  from "3.prems"(2) have "a = Plus Digit" by (simp add: digitGroup_def)
  with n have "digitString (take n t)" by (auto intro: take_digits)
  with "3.IH" [OF n(2)] "3.prems" show ?case by simp
qed

lemma search_digits:
  "search ps t = Some result \<Longrightarrow> list_all digitGroup ps \<Longrightarrow> list_all digitString result"
  by (induction ps t rule: search.induct)
    (auto split: option.splits dest: matchHere_digits)

lemma matchHere_length:
  "matchHere ps t captures = Some result \<Longrightarrow>
   length result = length captures + length (filter (\<lambda>p. case p of Plain _ \<Rightarrow> False | Group _ \<Rightarrow> True) ps)"
proof (induction ps t captures rule: matchHere.induct)
  case (1 t captures)
  then show ?case by simp
next
  case (2 a ps t captures)
  from "2.prems"(1) obtain n where "matchHere ps (drop n t) captures = Some result"
    by (auto dest: firstSome_Some)
  with "2.IH" show ?case by simp
next
  case (3 a ps t captures)
  from "3.prems"(1) obtain n where
    "matchHere ps (drop n t) (captures @ [take n t]) = Some result"
    by (auto dest: firstSome_Some)
  from "3.IH" [OF this] show ?case by simp
qed

lemma search_length:
  "search ps t = Some result \<Longrightarrow>
   length result = length (filter (\<lambda>p. case p of Plain _ \<Rightarrow> False | Group _ \<Rightarrow> True) ps)"
  by (induction ps t rule: search.induct)
    (auto split: option.splits dest: matchHere_length)

lemma manifestPatterns_shape:
  "p \<in> set manifestPatterns \<Longrightarrow>
   list_all digitGroup p \<and>
   length (filter (\<lambda>p. case p of Plain _ \<Rightarrow> False | Group _ \<Rightarrow> True) p) = 1"
  by (auto simp: manifestPatterns_def lit_def digitGroup_def)

lemma firstPatternMatch_None:
  "firstPatternMatch ps t = None \<longleftrightarrow> \<not> list_ex (\<lambda>p. search p t \<noteq> None) ps"
  by (induction ps) (auto split: option.splits)

lemma matchHere_sublist:
  "matchHere ps t captures = Some result \<Longrightarrow> suffix t t0 \<Longrightarrow>
   list_all (\<lambda>c. sublist c t0) captures \<Longrightarrow> list_all (\<lambda>c. sublist c t0) result"
proof (induction ps t captures rule: matchHere.induct)
  case (1 t captures)
  then show ?case by simp
next
  case (2 a ps t captures)
  from "2.prems"(1) obtain n where n: "n \<in> set (candidates a t)"
    "matchHere ps (drop n t) captures = Some result"
    by (auto dest: firstSome_Some)
  have "suffix (drop n t) t0"
    using "2.prems"(2) suffix_drop suffix_order.order_trans by blast
  with "2.IH" n "2.prems" show ?case by simp
next
  case (3 a ps t captures)
  from "3.prems"(1) obtain n where n: "n \<in> set (candidates a t)"
    "matchHere ps (drop n t) (captures @ [take n t]) = Some result"
    by (auto dest: firstSome_Some)
  have s: "suffix (drop n t) t0"
    using "3.prems"(2) suffix_drop suffix_order.order_trans by blast
  have "sublist (take n t) t0"
    using "3.prems"(2) sublist_take suffix_imp_sublist sublist_order.order_trans by blast
  with "3.IH" [OF n(2) s] "3.prems" show ?case by simp
qed

lemma search_sublist:
  "search ps t = Some result \<Longrightarrow> suffix t t0 \<Longrightarrow> list_all (\<lambda>c. sublist c t0) result"
proof (induction ps t rule: search.induct)
  case (1 ps)
  then show ?case by (auto dest: matchHere_sublist)
next
  case (2 ps c cs)
  show ?case
  proof (cases "matchHere ps (c # cs) []")
    case None
    with 2 show ?thesis by (auto dest: suffix_ConsD)
  next
    case (Some captures)
    with "2.prems" matchHere_sublist [OF Some "2.prems"(2)] show ?thesis by simp
  qed
qed

lemma firstPatternMatch_first:
  "firstPatternMatch ps t = Some v \<Longrightarrow>
   \<exists>pre p post captures. ps = pre @ p # post \<and> list_all (\<lambda>q. search q t = None) pre
      \<and> search p t = Some captures
      \<and> v = (case captures of [] \<Rightarrow> None | g # _ \<Rightarrow> Some g)"
proof (induction ps)
  case Nil
  then show ?case by simp
next
  case (Cons p ps)
  show ?case
  proof (cases "search p t")
    case None
    with Cons.prems have "firstPatternMatch ps t = Some v" by simp
    from Cons.IH [OF this] obtain pre q post captures where
      "ps = pre @ q # post" "list_all (\<lambda>q. search q t = None) pre"
      "search q t = Some captures" "v = (case captures of [] \<Rightarrow> None | g # _ \<Rightarrow> Some g)"
      by blast
    with None have "p # ps = (p # pre) @ q # post \<and> list_all (\<lambda>q. search q t = None) (p # pre)
      \<and> search q t = Some captures \<and> v = (case captures of [] \<Rightarrow> None | g # _ \<Rightarrow> Some g)"
      by simp
    then show ?thesis by blast
  next
    case (Some captures)
    with Cons.prems have "p # ps = [] @ p # ps \<and> list_all (\<lambda>q. search q t = None) []
      \<and> search p t = Some captures \<and> v = (case captures of [] \<Rightarrow> None | g # _ \<Rightarrow> Some g)"
      by auto
    then show ?thesis by blast
  qed
qed

lemma manifestPatterns_first:
  assumes "firstPatternMatch manifestPatterns t = Some v"
  shows "\<exists>pre p post m. manifestPatterns = pre @ p # post
      \<and> list_all (\<lambda>q. search q t = None) pre
      \<and> search p t = Some [m] \<and> sublist m t \<and> v = Some m \<and> digitString m"
proof -
  from firstPatternMatch_first [OF assms] obtain pre p post captures where
    split: "manifestPatterns = pre @ p # post" and pre: "list_all (\<lambda>q. search q t = None) pre"
    and found: "search p t = Some captures"
    and v: "v = (case captures of [] \<Rightarrow> None | g # _ \<Rightarrow> Some g)"
    by blast
  have p: "p \<in> set manifestPatterns" unfolding split by simp
  from search_length [OF found] manifestPatterns_shape [OF p] have "length captures = 1"
    by simp
  then obtain m where m: "captures = [m]" by (cases captures) auto
  from search_digits [OF found] manifestPatterns_shape [OF p] m have "digitString m"
    by simp
  moreover from search_sublist [OF found, of t] m have "sublist m t"
    by simp
  ultimately show ?thesis using split pre found v m by auto
qed

text \<open>
  Claim C10. Whenever \<^verbatim>\<open>getLatestManifestId\<close> returns normally, the tool was run with the
  arguments of the operation and succeeded, and the value returned is the first capture
  group of the first of the five patterns that matches the output of that run: a
  non-empty string of decimal digits that occurs in the output. When the command fails
  after its two attempts, or succeeds with an output that no pattern matches, or the tool
  cannot be installed, it throws.
\<close>

theorem manifest_id_is_digits:
  "(\<forall>v s'. getLatestManifestId env this appId depotId s = (Inr v, s') \<longrightarrow>
      (\<exists>b s1 r t pre p post m.
          ensureDepotDownloaderExists env this s = (Inr b, s1)
        \<and> runDepotDownloader env this
            [''-app'', toString appId, ''-depot'', toString depotId,
             ''-username'', username this, ''-password'', password this, ''-manifest-only'']
            2 s1 = (r, s')
        \<and> success r \<and> outputText r = Some t
        \<and> manifestPatterns = pre @ p # post
        \<and> list_all (\<lambda>q. search q t = None) pre
        \<and> search p t = Some [m] \<and> sublist m t
        \<and> v = Some m \<and> m \<noteq> [] \<and> list_all isDigit m))
   \<and> (\<forall>b s1 r s2.
        ensureDepotDownloaderExists env this s = (Inr b, s1) \<and>
        runDepotDownloader env this
          [''-app'', toString appId, ''-depot'', toString depotId,
           ''-username'', username this, ''-password'', password this, ''-manifest-only'']
          2 s1 = (r, s2) \<longrightarrow>
        (if success r \<and>
            (case outputText r of
               None \<Rightarrow> False
             | Some t \<Rightarrow> list_ex (\<lambda>p. search p t \<noteq> None) manifestPatterns)
         then \<exists>t pre p post m.
                outputText r = Some t
              \<and> manifestPatterns = pre @ p # post
              \<and> list_all (\<lambda>q. search q t = None) pre
              \<and> search p t = Some [m] \<and> sublist m t
              \<and> getLatestManifestId env this appId depotId s = (Inr (Some m), s2)
              \<and> digitString m
         else if success r
         then getLatestManifestId env this appId depotId s =
                (Inl (Error ''Failed to get manifest ID: Could not parse manifest ID from output''), s2)
         else getLatestManifestId env this appId depotId s =
                (Inl (Error ''Failed to get manifest ID: Max attempts exceeded''), s2)))
   \<and> (\<forall>e s1. ensureDepotDownloaderExists env this s = (Inl e, s1) \<longrightarrow>
        getLatestManifestId env this appId depotId s = (Inl e, s1))"
proof -
  let ?args = "[''-app'', toString appId, ''-depot'', toString depotId,
           ''-username'', username this, ''-password'', password this, ''-manifest-only'']"
  have staged: "if success r \<and>
            (case outputText r of
               None \<Rightarrow> False
             | Some t \<Rightarrow> list_ex (\<lambda>p. search p t \<noteq> None) manifestPatterns)
         then \<exists>t pre p post m.
                outputText r = Some t
              \<and> manifestPatterns = pre @ p # post
              \<and> list_all (\<lambda>q. search q t = None) pre
              \<and> search p t = Some [m] \<and> sublist m t
              \<and> getLatestManifestId env this appId depotId s = (Inr (Some m), s2)
              \<and> digitString m
         else if success r
         then getLatestManifestId env this appId depotId s =
                (Inl (Error ''Failed to get manifest ID: Could not parse manifest ID from output''), s2)
         else getLatestManifestId env this appId depotId s =
                (Inl (Error ''Failed to get manifest ID: Max attempts exceeded''), s2)"
    if e: "ensureDepotDownloaderExists env this s = (Inr b, s1)"
      and run: "runDepotDownloader env this ?args 2 s1 = (r, s2)" for b s1 r s2
  proof (cases "success r")
    case False
    with runDepotDownloader_outcome [OF run] have "error r = Some ''Max attempts exceeded''"
      by simp
    with False e run show ?thesis
      by (simp add: getLatestManifestId_def bindE_def manifestFailure_def orString_def)
  next
    case True
    with runDepotDownloader_outcome [OF run] obtain t where
      t: "outputText r = Some t" and noerr: "error r = None"
      by auto
    show ?thesis
    proof (cases "firstPatternMatch manifestPatterns t")
      case None
      then have "\<not> list_ex (\<lambda>p. search p t \<noteq> None) manifestPatterns"
        using firstPatternMatch_None [of manifestPatterns t] by blast
      with None True t noerr e run show ?thesis
        by (simp add: getLatestManifestId_def bindE_def manifestFailure_def orString_def)
    next
      case (Some v)
      from manifestPatterns_first [OF Some] obtain pre p post m where
        first: "manifestPatterns = pre @ p # post" "list_all (\<lambda>q. search q t = None) pre"
          "search p t = Some [m]" "sublist m t" and v: "v = Some m" and m: "digitString m"
        by blast
      from Some have ex: "list_ex (\<lambda>p. search p t \<noteq> None) manifestPatterns"
        using firstPatternMatch_None [of manifestPatterns t] by simp
      have "getLatestManifestId env this appId depotId s = (Inr (Some m), s2)"
        using True t e run Some v by (simp add: getLatestManifestId_def bindE_def)
      with first m t have "\<exists>t pre p post m.
                outputText r = Some t
              \<and> manifestPatterns = pre @ p # post
              \<and> list_all (\<lambda>q. search q t = None) pre
              \<and> search p t = Some [m] \<and> sublist m t
              \<and> getLatestManifestId env this appId depotId s = (Inr (Some m), s2)
              \<and> digitString m"
        by blast
      with True t ex show ?thesis by simp
    qed
  qed
  have digits: "\<exists>b s1 r t pre p post m.
          ensureDepotDownloaderExists env this s = (Inr b, s1)
        \<and> runDepotDownloader env this ?args 2 s1 = (r, s')
        \<and> success r \<and> outputText r = Some t
        \<and> manifestPatterns = pre @ p # post
        \<and> list_all (\<lambda>q. search q t = None) pre
        \<and> search p t = Some [m] \<and> sublist m t
        \<and> v = Some m \<and> m \<noteq> [] \<and> list_all isDigit m"
    if ret: "getLatestManifestId env this appId depotId s = (Inr v, s')" for v s'
  proof -
    obtain x1 s1 where e: "ensureDepotDownloaderExists env this s = (x1, s1)"
      by (cases "ensureDepotDownloaderExists env this s")
    obtain r s2 where run: "runDepotDownloader env this ?args 2 s1 = (r, s2)"
      by (cases "runDepotDownloader env this ?args 2 s1")
    from ret e obtain b where b: "x1 = Inr b"
      by (cases x1) (auto simp: getLatestManifestId_def bindE_def)
    from ret e run b obtain t where
      r: "success r" "outputText r = Some t" and s2: "s2 = s'"
      and found: "firstPatternMatch manifestPatterns t = Some v"
      by (auto simp: getLatestManifestId_def bindE_def Let_def
          split: if_splits option.splits)
    from manifestPatterns_first [OF found] obtain pre p post m where
      "manifestPatterns = pre @ p # post" "list_all (\<lambda>q. search q t = None) pre"
      "search p t = Some [m]" "sublist m t" "v = Some m" "m \<noteq> []" "list_all isDigit m"
      by (auto simp: digitString_def)
    with e run b r s2 show ?thesis by blast
  qed
  have thrown: "getLatestManifestId env this appId depotId s = (Inl e, s1)"
    if "ensureDepotDownloaderExists env this s = (Inl e, s1)" for e s1
    using that by (simp add: getLatestManifestId_def bindE_def)
  from digits staged thrown show ?thesis by blast
qed

section \<open>Evaluating the depot downloader\<close>

lemma cli_env_simps [simp]:
  "platform (cli_env script) = ''linux''"
  "existsSync (cli_env script) = (\<lambda>p w. True)"
  "spawn (cli_env script) =
     (\<lambda>c t w. (if w < length script then script ! w else Closed (Some 1) [] [], Suc w))"
  "setTimeout (cli_env script) = (\<lambda>ms w. w)"
  "writeFileSync (cli_env script) = (\<lambda>p c w. (Inr (), w))"
  "unlinkSync (cli_env script) = (\<lambda>p w. (Inr (), w))"
  "pathJoin (cli_env script) = join ''/''"
  by (simp_all add: cli_env_def)

lemma backoffTime_values:
  "backoffTime 1 = 30000" "backoffTime 2 = 60000" "backoffTime 3 = 120000" "backoffTime 4 = 120000"
  by (simp_all add: backoffTime_def)





lemma cli_first_attempt_succeeds:
  "runDepotDownloader (cli_env [Closed (Some 0) out err]) this args 2 cli_start =
     (\<lparr> success = True, error = None, outputText = Some (out @ err) \<rparr>,
      \<lparr> world = 1,
        trace = [Spawn (commandLine this args) (30 * 60 * 1000)
                   \<lparr> success = True, error = None, outputText = Some (out @ err) \<rparr>] \<rparr>)"
  by (simp add: runDepotDownloader_def attempts.simps [of _ _ _ "Suc 0"] runCommand_def
      perform_def commandResult_def cli_start_def)

lemma manifest_listing_parsed:
  "firstPatternMatch manifestPatterns manifest_listing = Some (Some ''1597148535702430842'')"
  by code_simp

lemma manifest_listing_first_pattern:
  "search (hd manifestPatterns) manifest_listing = Some [''1597148535702430842'']"
  by code_simp

theorem manifest_id_is_digits_witness:
  "ensureDepotDownloaderExists (cli_env [Closed (Some 0) manifest_listing []])
     (DepotDownloader (cli_env [Closed (Some 0) manifest_listing []]) (cli_options None)) cli_start =
     (Inr True, cli_start)
   \<and> fst (getLatestManifestId (cli_env [Closed (Some 0) manifest_listing []])
       (DepotDownloader (cli_env [Closed (Some 0) manifest_listing []]) (cli_options None))
       730 2347770 cli_start) = Inr (Some ''1597148535702430842'')
   \<and> search (hd manifestPatterns) manifest_listing = Some [''1597148535702430842'']
   \<and> sublist ''1597148535702430842'' manifest_listing
   \<and> digitString ''1597148535702430842''"
proof -
  let ?E = "cli_env [Closed (Some 0) manifest_listing []]"
  let ?dd = "DepotDownloader ?E (cli_options None)"
  let ?args = "[''-app'', toString 730, ''-depot'', toString 2347770,
           ''-username'', username ?dd, ''-password'', password ?dd, ''-manifest-only'']"
  let ?r = "\<lparr> success = True, error = None, outputText = Some (manifest_listing @ []) \<rparr>"
  let ?s2 = "\<lparr> world = 1,
        trace = [Spawn (commandLine ?dd ?args) (30 * 60 * 1000) ?r] \<rparr>"
  have ensured: "ensureDepotDownloaderExists ?E ?dd cli_start = (Inr True, cli_start)"
    by (simp add: ensureDepotDownloaderExists_def)
  have ran: "runDepotDownloader ?E ?dd ?args 2 cli_start = (?r, ?s2)"
    by (rule cli_first_attempt_succeeds)
  have matches: "list_ex (\<lambda>p. search p manifest_listing \<noteq> None) manifestPatterns"
    using manifest_listing_parsed firstPatternMatch_None [of manifestPatterns manifest_listing]
    by simp
  have ret: "getLatestManifestId ?E ?dd 730 2347770 cli_start =
      (Inr (Some ''1597148535702430842''), ?s2)"
    by (simp add: getLatestManifestId_def bindE_def ensured ran manifest_listing_parsed)
  have first: "search (hd manifestPatterns) manifest_listing = Some [''1597148535702430842'']"
    by (rule manifest_listing_first_pattern)
  from manifest_id_is_digits [of ?E ?dd 730 2347770 cli_start, THEN conjunct1, rule_format, OF ret]
  obtain b s1 r t m where
    e: "ensureDepotDownloaderExists ?E ?dd cli_start = (Inr b, s1)"
    and run: "runDepotDownloader ?E ?dd ?args 2 s1 = (r, ?s2)"
    and t: "outputText r = Some t"
    and m: "sublist m t" "Some ''1597148535702430842'' = Some m" "m \<noteq> []" "list_all isDigit m"
    by blast
  from e ensured have "s1 = cli_start" by simp
  with run ran have "r = ?r" by simp
  with t have "t = manifest_listing" by simp
  with m have "sublist ''1597148535702430842'' manifest_listing"
    "digitString ''1597148535702430842''"
    by (simp_all add: digitString_def)
  with ensured ret first show ?thesis by simp
qed

end
